theory Spec2Isabelle
  imports Complex_Main "HOL-Library.Word"
begin

section \<open>Go strings and the standard-library calls of the decimal rules\<close>

text \<open>
  A Go string is a sequence of bytes, here a \<open>char list\<close>; \<open>len\<close> is \<open>length\<close>.
  \<open>int32\<close> is a 32-bit two's complement word: \<open>-\<close> wraps, comparisons are the signed
  ones (\<open><s\<close>, \<open><=s\<close>), and the conversion \<open>int32(n)\<close> keeps the low 32 bits.
\<close>

type_synonym int32 = "32 word"

text \<open>
  \<open>strings.Split(s, sep)\<close>, for the one-byte separators the source passes
  (\<open>":"\<close>, \<open>"."\<close>, \<open>"@"\<close>, \<open>"="\<close>): the pieces between the occurrences of the separator,
  so one piece more than there are separators.
\<close>

fun Split :: "string \<Rightarrow> char \<Rightarrow> string list" where
  "Split [] sep = [[]]"
| "Split (c # cs) sep =
     (if c = sep then [] # Split cs sep
      else (case Split cs sep of [] \<Rightarrow> [[c]] | p # ps \<Rightarrow> (c # p) # ps))"

text \<open>\<open>strings.Contains(s, sep)\<close> for a one-byte \<open>sep\<close>.\<close>

definition Contains :: "string \<Rightarrow> char \<Rightarrow> bool" where
  "Contains s sep = (sep \<in> set s)"

text \<open>\<open>strings.TrimPrefix(s, prefix)\<close>: \<open>s\<close> without the prefix when it starts with it.\<close>

definition TrimPrefix :: "string \<Rightarrow> string \<Rightarrow> string" where
  "TrimPrefix s p = (if take (length p) s = p then drop (length p) s else s)"

text \<open>\<open>strings.TrimLeft(s, cutset)\<close>: drops every leading byte that is in \<open>cutset\<close>.\<close>

definition TrimLeft :: "string \<Rightarrow> string \<Rightarrow> string" where
  "TrimLeft s cutset = dropWhile (\<lambda>c. c \<in> set cutset) s"

text \<open>
  \<open>strings.IndexAny(s, chars)\<close>: the index of the first byte of \<open>s\<close> that is in \<open>chars\<close>;
  Go's \<open>-1\<close> is \<open>None\<close>.
\<close>

definition IndexAny :: "string \<Rightarrow> string \<Rightarrow> nat option" where
  "IndexAny s chars =
     (if list_ex (\<lambda>c. c \<in> set chars) s
      then Some (length (takeWhile (\<lambda>c. c \<notin> set chars) s)) else None)"

definition isDigit :: "char \<Rightarrow> bool" where
  "isDigit c = (c \<in> set ''0123456789'')"

definition digitVal :: "char \<Rightarrow> nat" where
  "digitVal c = of_char c - 48"

text \<open>
  The digit loop of \<open>strconv.ParseUint\<close> in base 10: every byte must be a decimal digit
  (an underscore is only legal with base 0). The value is accumulated without a bound
  here; the callers below apply the range checks.
\<close>

fun parseDigits :: "nat \<Rightarrow> string \<Rightarrow> nat option" where
  "parseDigits acc [] = Some acc"
| "parseDigits acc (c # cs) =
     (if isDigit c then parseDigits (acc * 10 + digitVal c) cs else None)"

definition ParseUint :: "string \<Rightarrow> nat option" where
  "ParseUint s = (if s = [] then None else parseDigits 0 s)"

text \<open>
  \<open>strconv.ParseInt(s, 10, bitSize)\<close>: an optional \<open>+\<close> or \<open>-\<close>, then \<open>ParseUint\<close>.
  \<open>None\<close> stands for both of Go's errors: \<open>ErrSyntax\<close> (empty, or a byte that is no digit)
  and \<open>ErrRange\<close> (the value does not fit \<open>bitSize\<close> signed bits; Go's \<open>ParseUint\<close>
  then reports the largest unsigned value, which \<open>ParseInt\<close> rejects by the same cutoff).
\<close>

definition ParseInt :: "string \<Rightarrow> nat \<Rightarrow> int option" where
  "ParseInt s bitSize =
     (case s of
        [] \<Rightarrow> None
      | c # cs \<Rightarrow>
          (let neg = (c = CHR ''-'');
               s' = (if c = CHR ''+'' \<or> c = CHR ''-'' then cs else s)
           in case ParseUint s' of
                None \<Rightarrow> None
              | Some un \<Rightarrow>
                  (let cutoff = (2::nat) ^ (bitSize - 1)
                   in if \<not> neg \<and> un \<ge> cutoff then None
                      else if neg \<and> un > cutoff then None
                      else Some (if neg then - int un else int un))))"

text \<open>
  \<open>(*big.Int).SetString(s, 10)\<close>: an optional sign and one or more decimal digits, the
  whole string consumed; no range limit.
\<close>

definition SetString :: "string \<Rightarrow> int option" where
  "SetString s =
     (case s of
        [] \<Rightarrow> None
      | c # cs \<Rightarrow>
          (let neg = (c = CHR ''-'');
               s' = (if c = CHR ''+'' \<or> c = CHR ''-'' then cs else s)
           in case ParseUint s' of
                None \<Rightarrow> None
              | Some un \<Rightarrow> Some (if neg then - int un else int un)))"

text \<open>\<open>(*big.Int).String()\<close>: the decimal digits, most significant first, each taken
  from the digit table, and \<open>-\<close> in front of a negative number.\<close>

definition digitChar :: "nat \<Rightarrow> char" where
  "digitChar d = ''0123456789'' ! d"

fun natString :: "nat \<Rightarrow> string" where
  "natString n = (if n < 10 then [digitChar n] else natString (n div 10) @ [digitChar (n mod 10)])"

declare natString.simps [simp del]

definition bigString :: "int \<Rightarrow> string" where
  "bigString v = (if v < 0 then CHR ''-'' # natString (nat (- v)) else natString (nat v))"

text \<open>\<open>(*big.Int).Quo\<close>: division truncated towards zero.\<close>

definition Quo :: "int \<Rightarrow> int \<Rightarrow> int" where
  "Quo a b = sgn a * sgn b * (\<bar>a\<bar> div \<bar>b\<bar>)"


section \<open>The decimal type of github.com/shopspring/decimal\<close>

text \<open>
  The rules delegate parsing, rendering and comparison to this library, which is a
  dependency of the repository and not part of its sources. The definitions below follow
  the library's functions statement by statement. A \<open>Decimal\<close> is the number
  \<open>value * 10 ^ exp\<close> with an unbounded integer \<open>value\<close> and an \<open>int32\<close> exponent.
\<close>

record Decimal =
  value_d :: int
  exp_d :: int32

text \<open>
  The loop of \<open>NewFromString\<close> that looks for the decimal point: \<open>None\<close> is the error
  "too many .s", \<open>Some None\<close> is \<open>pIndex = -1\<close>.
\<close>

fun scanPoint :: "string \<Rightarrow> nat \<Rightarrow> nat option \<Rightarrow> nat option option" where
  "scanPoint [] i pIndex = Some pIndex"
| "scanPoint (c # cs) i pIndex =
     (if c = CHR ''.''
      then (if pIndex \<noteq> None then None else scanPoint cs (i + 1) (Some i))
      else scanPoint cs (i + 1) pIndex)"

text \<open>
  The first step of \<open>NewFromString\<close>: an \<open>E\<close> or \<open>e\<close> starts a scientific exponent, which
  must parse as a 32-bit integer; the text before it is the mantissa.
\<close>

definition splitExponent :: "string \<Rightarrow> (string \<times> int) option" where
  "splitExponent input =
     (case IndexAny input ''Ee'' of
        None \<Rightarrow> Some (input, 0)
      | Some eIndex \<Rightarrow>
          (case ParseInt (drop (eIndex + 1) input) 32 of
             None \<Rightarrow> None
           | Some expInt \<Rightarrow> Some (take eIndex input, expInt)))"

text \<open>
  \<open>decimal.NewFromString\<close>. After the exponent is split off, the single decimal point
  is removed from the mantissa and counted into the exponent, and the remaining text is
  parsed as an integer: by \<open>strconv.ParseInt\<close> when it has at most 18 bytes, by
  \<open>big.Int.SetString\<close> otherwise. The exponent must fit \<open>int32\<close>.
\<close>

definition NewFromString :: "string \<Rightarrow> Decimal option" where
  "NewFromString input =
     (case splitExponent input of
        None \<Rightarrow> None
      | Some (val, exp0) \<Rightarrow>
          (case scanPoint val 0 None of
             None \<Rightarrow> None
           | Some pIndex \<Rightarrow>
               (let (intString, exp) =
                      (case pIndex of
                         None \<Rightarrow> (val, exp0)
                       | Some i \<Rightarrow>
                           (take i val @ drop (i + 1) val,
                            exp0 - int (length (drop (i + 1) val))));
                    dValue = (if length intString \<le> 18 then ParseInt intString 64
                              else SetString intString)
                in case dValue of
                     None \<Rightarrow> None
                   | Some v \<Rightarrow>
                       if exp < - (2 ^ 31) \<or> exp > 2 ^ 31 - 1 then None
                       else Some \<lparr>value_d = v, exp_d = word_of_int exp\<rparr>)))"

text \<open>\<open>Decimal.rescale\<close>: the same number at another exponent (truncating when the
  exponent grows).\<close>

definition rescale :: "Decimal \<Rightarrow> int32 \<Rightarrow> Decimal" where
  "rescale d e =
     (if exp_d d = e then d
      else
        (let diff = nat \<bar>sint e - sint (exp_d d)\<bar>;
             expScale = (10::int) ^ diff
         in if sint (exp_d d) < sint e
            then \<lparr>value_d = Quo (value_d d) expScale, exp_d = e\<rparr>
            else \<lparr>value_d = value_d d * expScale, exp_d = e\<rparr>))"

text \<open>\<open>decimal.RescalePair\<close>: both numbers at the smaller of the two exponents.\<close>

definition RescalePair :: "Decimal \<Rightarrow> Decimal \<Rightarrow> Decimal \<times> Decimal" where
  "RescalePair d1 d2 =
     (if sint (exp_d d1) < sint (exp_d d2) then (d1, rescale d2 (exp_d d1))
      else if sint (exp_d d2) < sint (exp_d d1) then (rescale d1 (exp_d d2), d2)
      else (d1, d2))"

text \<open>\<open>(*big.Int).Cmp\<close> and \<open>Decimal.Cmp\<close>: -1, 0 or 1.\<close>

definition bigCmp :: "int \<Rightarrow> int \<Rightarrow> int" where
  "bigCmp x y = (if x < y then - 1 else if x = y then 0 else 1)"

definition Cmp :: "Decimal \<Rightarrow> Decimal \<Rightarrow> int" where
  "Cmp d d2 =
     (if exp_d d = exp_d d2 then bigCmp (value_d d) (value_d d2)
      else (let (rd, rd2) = RescalePair d d2 in bigCmp (value_d rd) (value_d rd2)))"

definition Equal :: "Decimal \<Rightarrow> Decimal \<Rightarrow> bool" where
  "Equal d d2 = (Cmp d d2 = 0)"

definition GreaterThan :: "Decimal \<Rightarrow> Decimal \<Rightarrow> bool" where
  "GreaterThan d d2 = (Cmp d d2 = 1)"

definition GreaterThanOrEqual :: "Decimal \<Rightarrow> Decimal \<Rightarrow> bool" where
  "GreaterThanOrEqual d d2 = (let cmp = Cmp d d2 in cmp = 1 \<or> cmp = 0)"

definition LessThan :: "Decimal \<Rightarrow> Decimal \<Rightarrow> bool" where
  "LessThan d d2 = (Cmp d d2 = - 1)"

definition LessThanOrEqual :: "Decimal \<Rightarrow> Decimal \<Rightarrow> bool" where
  "LessThanOrEqual d d2 = (let cmp = Cmp d d2 in cmp = - 1 \<or> cmp = 0)"

text \<open>The loop of \<open>Decimal.string\<close> that cuts the zeros at the end of the fraction.\<close>

definition trimTrailingZeros :: "string \<Rightarrow> string" where
  "trimTrailingZeros f = rev (dropWhile (\<lambda>c. c = CHR ''0'') (rev f))"

text \<open>
  \<open>Decimal.String\<close>: the canonical text. With a non-negative exponent it is the integer
  \<open>value * 10 ^ exp\<close>; otherwise the digits of \<open>|value|\<close> are cut \<open>-exp\<close> places from the
  right (padded with zeros when there are too few), the trailing zeros of the fraction
  are dropped, the point is written only before a non-empty fraction, and \<open>-\<close> is put in
  front when \<open>value\<close> is negative.
\<close>

definition Decimal_String :: "Decimal \<Rightarrow> string" where
  "Decimal_String d =
     (if 0 \<le> sint (exp_d d) then bigString (value_d (rescale d 0))
      else
        (let str = natString (nat \<bar>value_d d\<bar>);
             dExpInt = sint (exp_d d);
             (intPart, fractionalPart) =
               (if int (length str) > - dExpInt
                then (take (nat (int (length str) + dExpInt)) str,
                      drop (nat (int (length str) + dExpInt)) str)
                else (''0'',
                      replicate (nat (- dExpInt - int (length str))) (CHR ''0'') @ str));
             fractionalPart' = trimTrailingZeros fractionalPart;
             number = (if length fractionalPart' > 0
                       then intPart @ ''.'' @ fractionalPart' else intPart)
         in if value_d d < 0 then CHR ''-'' # number else number))"


section \<open>The validation framework's view of a field\<close>

text \<open>
  What the rules read through \<open>validator.FieldLevel\<close> and \<open>reflect.Value\<close>: a value is a
  Go \<open>string\<close>, a value of a named string type, or a value of another type \<open>T\<close>.
  \<open>Value.String()\<close> gives the text of the first two and \<open><T Value>\<close> for the third;
  the type assertion \<open>Interface().(string)\<close> succeeds on the first only.
  The parent is a struct, as it is when a struct is validated, and is given by its
  \<open>FieldByName\<close> lookup: \<open>None\<close> is the invalid \<open>Value\<close>.
\<close>

datatype rvalue = StringValue string | NamedStringValue string | OtherValue string

fun rvalue_String :: "rvalue \<Rightarrow> string" where
  "rvalue_String (StringValue s) = s"
| "rvalue_String (NamedStringValue s) = s"
| "rvalue_String (OtherValue t) = ''<'' @ t @ '' Value>''"

fun Interface_string :: "rvalue \<Rightarrow> string option" where
  "Interface_string (StringValue s) = Some s"
| "Interface_string (NamedStringValue s) = None"
| "Interface_string (OtherValue t) = None"

record FieldLevel =
  Field :: rvalue
  Param :: string
  Parent :: "string \<Rightarrow> rvalue option"


section \<open>The decimal rules\<close>

definition DefaultPrecision :: int32 where
  "DefaultPrecision = 38"

definition DefaultScale :: int32 where
  "DefaultScale = 18"

definition validateDecimalOperation :: "(Decimal \<Rightarrow> Decimal \<Rightarrow> bool) \<Rightarrow> FieldLevel \<Rightarrow> bool" where
  "validateDecimalOperation comparator fl =
     (case Interface_string (Field fl) of
        None \<Rightarrow> False
      | Some data \<Rightarrow>
          (case NewFromString data of
             None \<Rightarrow> False
           | Some val \<Rightarrow>
               (case NewFromString (Param fl) of
                  None \<Rightarrow> False
                | Some baseValue \<Rightarrow> comparator val baseValue)))"

definition decimalGreaterThan :: "Decimal \<Rightarrow> Decimal \<Rightarrow> bool" where
  "decimalGreaterThan a b = GreaterThan a b"

definition decimalGreaterThanOrEqual :: "Decimal \<Rightarrow> Decimal \<Rightarrow> bool" where
  "decimalGreaterThanOrEqual a b = GreaterThanOrEqual a b"

definition decimalLessThan :: "Decimal \<Rightarrow> Decimal \<Rightarrow> bool" where
  "decimalLessThan a b = LessThan a b"

definition decimalLessThanOrEqual :: "Decimal \<Rightarrow> Decimal \<Rightarrow> bool" where
  "decimalLessThanOrEqual a b = LessThanOrEqual a b"

definition decimalEqual :: "Decimal \<Rightarrow> Decimal \<Rightarrow> bool" where
  "decimalEqual a b = Equal a b"

definition decimalNotEqual :: "Decimal \<Rightarrow> Decimal \<Rightarrow> bool" where
  "decimalNotEqual a b = (\<not> Equal a b)"

text \<open>The six rules as \<open>RegisterDecimalValidators\<close> registers them.\<close>

definition dgt :: "FieldLevel \<Rightarrow> bool" where
  "dgt = validateDecimalOperation decimalGreaterThan"

definition dgte :: "FieldLevel \<Rightarrow> bool" where
  "dgte = validateDecimalOperation decimalGreaterThanOrEqual"

definition dlt :: "FieldLevel \<Rightarrow> bool" where
  "dlt = validateDecimalOperation decimalLessThan"

definition dlte :: "FieldLevel \<Rightarrow> bool" where
  "dlte = validateDecimalOperation decimalLessThanOrEqual"

definition deq :: "FieldLevel \<Rightarrow> bool" where
  "deq = validateDecimalOperation decimalEqual"

definition dneq :: "FieldLevel \<Rightarrow> bool" where
  "dneq = validateDecimalOperation decimalNotEqual"

text \<open>
  \<open>parseDecimalParams\<close>. A parameter with a colon is used only when \<open>Split\<close> gives exactly
  two parts; each part that parses replaces its default.
\<close>

definition parseDecimalParams :: "string \<Rightarrow> int32 \<times> int32" where
  "parseDecimalParams param =
     (if param = [] then (DefaultPrecision, DefaultScale)
      else if Contains param (CHR '':'') then
        (let parts = Split param (CHR '':'')
         in if length parts = 2 then
              (let precision = (case ParseInt (parts ! 0) 32 of
                                  Some p \<Rightarrow> word_of_int p | None \<Rightarrow> DefaultPrecision);
                   scale = (case ParseInt (parts ! 1) 32 of
                              Some s \<Rightarrow> word_of_int s | None \<Rightarrow> DefaultScale)
               in (precision, scale))
            else (DefaultPrecision, DefaultScale))
      else
        (case ParseInt param 32 of
           Some s \<Rightarrow> (DefaultPrecision, word_of_int s)
         | None \<Rightarrow> (DefaultPrecision, DefaultScale)))"

text \<open>
  \<open>validateDecimalPrecisionScale\<close>. \<open>Split\<close> never returns an empty list, so \<open>parts[0]\<close>
  exists. The two lengths are converted to \<open>int32\<close> and all comparisons and the
  subtraction are \<open>int32\<close> operations.
\<close>

definition validateDecimalPrecisionScale :: "Decimal \<Rightarrow> int32 \<Rightarrow> int32 \<Rightarrow> bool" where
  "validateDecimalPrecisionScale val precision scale =
     (let valueStr = TrimPrefix (Decimal_String val) ''-'';
          parts = Split valueStr (CHR ''.'');
          integerPart0 = hd parts;
          decimalPart = (if length parts > 1 then parts ! 1 else []);
          integerPart =
            (if integerPart0 \<noteq> ''0''
             then (let t = TrimLeft integerPart0 ''0'' in if t = [] then ''0'' else t)
             else integerPart0);
          integerDigits = (word_of_nat (length integerPart) :: int32);
          decimalPlaces = (word_of_nat (length decimalPart) :: int32)
      in if scale <s decimalPlaces then False
         else (let maxIntegerDigits = precision - scale
               in integerDigits <=s maxIntegerDigits))"

definition validateDecimal :: "FieldLevel \<Rightarrow> bool" where
  "validateDecimal fl =
     (case Interface_string (Field fl) of
        None \<Rightarrow> False
      | Some data \<Rightarrow>
          (case NewFromString data of
             None \<Rightarrow> False
           | Some val \<Rightarrow>
               (let (precision, scale) = parseDecimalParams (Param fl)
                in validateDecimalPrecisionScale val precision scale)))"

text \<open>The error value of \<open>parseDecimalIfParam\<close> is an empty \<open>validator.ValidationErrors\<close>.\<close>

datatype error = ValidationErrors

definition parseDecimalIfParam :: "string \<Rightarrow> error + (string \<times> string \<times> string)" where
  "parseDecimalIfParam param =
     (let parts = Split param (CHR ''@'')
      in if length parts \<noteq> 2 then Inl ValidationErrors
         else
           (let rule = parts ! 0;
                conditionParts = Split (parts ! 1) (CHR ''='')
            in if length conditionParts \<noteq> 2 then Inl ValidationErrors
               else Inr (rule, conditionParts ! 0, conditionParts ! 1)))"

definition validateDecimalIf :: "FieldLevel \<Rightarrow> bool" where
  "validateDecimalIf fl =
     (case parseDecimalIfParam (Param fl) of
        Inl err \<Rightarrow> False
      | Inr (rule, field, expect) \<Rightarrow>
          (case Parent fl field of
             None \<Rightarrow> False
           | Some otherField \<Rightarrow>
               if rvalue_String otherField \<noteq> expect then True
               else
                 (case Interface_string (Field fl) of
                    None \<Rightarrow> False
                  | Some data \<Rightarrow>
                      (case NewFromString data of
                         None \<Rightarrow> False
                       | Some val \<Rightarrow>
                           (let (precision, scale) = parseDecimalParams rule
                            in validateDecimalPrecisionScale val precision scale)))))"


section \<open>Vocabulary of the specification\<close>

text \<open>The text before the first occurrence of a separator, and the text after it.\<close>

definition beforeFirst :: "char \<Rightarrow> string \<Rightarrow> string" where
  "beforeFirst sep s = takeWhile (\<lambda>c. c \<noteq> sep) s"

definition afterFirst :: "char \<Rightarrow> string \<Rightarrow> string" where
  "afterFirst sep s = drop 1 (dropWhile (\<lambda>c. c \<noteq> sep) s)"


text \<open>
  The digit counts of section 4.3 of the specification, read off the canonical text of a
  value: the minus sign is dropped, the text up to the first point is the integer part
  and the text after it the fractional part (empty without a point); leading zeros of
  the integer part are stripped, and an empty result counts as the single digit \<open>0\<close>.
\<close>

definition unsignedText :: "string \<Rightarrow> string" where
  "unsignedText s = (case s of [] \<Rightarrow> [] | c # r \<Rightarrow> if c = CHR ''-'' then r else s)"

definition normalizeInteger :: "string \<Rightarrow> string" where
  "normalizeInteger ip =
     (let t = dropWhile (\<lambda>c. c = CHR ''0'') ip in if t = [] then ''0'' else t)"

definition fractionalDigits :: "Decimal \<Rightarrow> nat" where
  "fractionalDigits v = length (afterFirst (CHR ''.'') (unsignedText (Decimal_String v)))"

definition integerDigits :: "Decimal \<Rightarrow> nat" where
  "integerDigits v =
     length (normalizeInteger (beforeFirst (CHR ''.'') (unsignedText (Decimal_String v))))"


text \<open>
  Signed decimal integers as text: an optional \<open>+\<close> or \<open>-\<close>, then one or more digits,
  and the number such a text denotes.
\<close>

definition digitsValue :: "string \<Rightarrow> nat" where
  "digitsValue s = foldl (\<lambda>a c. a * 10 + digitVal c) 0 s"

definition unsignedPart :: "string \<Rightarrow> string" where
  "unsignedPart s =
     (case s of [] \<Rightarrow> [] | c # r \<Rightarrow> if c = CHR ''+'' \<or> c = CHR ''-'' then r else s)"

definition signedDigits :: "string \<Rightarrow> bool" where
  "signedDigits s = (unsignedPart s \<noteq> [] \<and> list_all isDigit (unsignedPart s))"

definition signedValue :: "string \<Rightarrow> int" where
  "signedValue s =
     (if take 1 s = ''-'' then - int (digitsValue (unsignedPart s))
      else int (digitsValue (unsignedPart s)))"

text \<open>
  The literals the library's parser accepts, described without its loops: the text up
  to the first \<open>E\<close> or \<open>e\<close> is the mantissa and the text after it the exponent; the
  exponent must be a signed integer within \<open>int32\<close>; the mantissa has at most one point
  and, with the point taken out, is a signed integer; and the exponent less the number
  of bytes after the point must not fall below \<open>-2^31\<close>.
\<close>

definition hasExponent :: "string \<Rightarrow> bool" where
  "hasExponent s = list_ex (\<lambda>c. c \<in> set ''Ee'') s"

definition mantissaText :: "string \<Rightarrow> string" where
  "mantissaText s = takeWhile (\<lambda>c. c \<notin> set ''Ee'') s"

definition exponentText :: "string \<Rightarrow> string" where
  "exponentText s = drop 1 (dropWhile (\<lambda>c. c \<notin> set ''Ee'') s)"

definition literalExponent :: "string \<Rightarrow> int" where
  "literalExponent s =
     (if hasExponent s then signedValue (exponentText s) else 0)
       - int (length (afterFirst (CHR ''.'') (mantissaText s)))"

definition acceptedLiteral :: "string \<Rightarrow> bool" where
  "acceptedLiteral s =
     ((hasExponent s \<longrightarrow>
         signedDigits (exponentText s)
         \<and> - (2 ^ 31) \<le> signedValue (exponentText s) \<and> signedValue (exponentText s) < 2 ^ 31)
      \<and> count_list (mantissaText s) (CHR ''.'') \<le> 1
      \<and> signedDigits (filter (\<lambda>c. c \<noteq> CHR ''.'') (mantissaText s))
      \<and> - (2 ^ 31) \<le> literalExponent s)"

text \<open>
  The grammar of section 4.2 of the specification: an optional leading \<open>-\<close>, one or more
  integer digits, and optionally a point followed by one or more fractional digits; and
  the number such a literal denotes.
\<close>

definition specLiteral :: "string \<Rightarrow> bool" where
  "specLiteral s =
     (let u = unsignedText s;
          ip = beforeFirst (CHR ''.'') u;
          fp = afterFirst (CHR ''.'') u
      in ip \<noteq> [] \<and> list_all isDigit ip \<and> list_all isDigit fp
         \<and> (CHR ''.'' \<in> set u \<longrightarrow> fp \<noteq> []))"

definition literalValue :: "string \<Rightarrow> real" where
  "literalValue s =
     (let u = unsignedText s;
          ip = beforeFirst (CHR ''.'') u;
          fp = afterFirst (CHR ''.'') u;
          m = real (digitsValue ip) + real (digitsValue fp) / 10 ^ length fp
      in if take 1 s = ''-'' then - m else m)"

text \<open>The literal written from a sign, integer digits and fractional digits.\<close>

definition buildLiteral :: "bool \<Rightarrow> string \<Rightarrow> string \<Rightarrow> string" where
  "buildLiteral neg ip fp =
     (if neg then ''-'' else []) @ ip @ (if fp = [] then [] else CHR ''.'' # fp)"

text \<open>The number a \<open>Decimal\<close> stands for, and the three-way comparison of two numbers.\<close>

definition numval :: "Decimal \<Rightarrow> real" where
  "numval d = of_int (value_d d) * 10 powi (sint (exp_d d))"

definition sign3 :: "real \<Rightarrow> real \<Rightarrow> int" where
  "sign3 a b = (if a < b then - 1 else if a = b then 0 else 1)"


text \<open>The bytes that can occur in a literal the parser accepts.\<close>

definition literalChar :: "char \<Rightarrow> bool" where
  "literalChar c = (isDigit c \<or> c \<in> set ''+-.eE'')"


section \<open>Facts about \<open>Split\<close>\<close>

lemma Split_not_Nil: "Split s sep \<noteq> []"
  by (induction s) (auto split: list.splits)

lemma length_Split: "length (Split s sep) = Suc (count_list s sep)"
  by (induction s) (auto split: list.splits simp: Split_not_Nil)

lemma Split_no_sep: "sep \<notin> set s \<Longrightarrow> Split s sep = [s]"
  by (induction s) auto

lemma Split_append: "sep \<notin> set a \<Longrightarrow> Split (a @ sep # b) sep = a # Split b sep"
  by (induction a) (auto split: list.splits)

lemma split_at_first:
  "sep \<in> set s \<Longrightarrow> s = beforeFirst sep s @ sep # afterFirst sep s"
  unfolding beforeFirst_def afterFirst_def by (induction s) auto

lemma sep_notin_beforeFirst: "sep \<notin> set (beforeFirst sep s)"
  unfolding beforeFirst_def by (induction s) auto

lemma Split_first:
  assumes "sep \<in> set s"
  shows "Split s sep = beforeFirst sep s # Split (afterFirst sep s) sep"
proof -
  have "Split (beforeFirst sep s @ sep # afterFirst sep s) sep
          = beforeFirst sep s # Split (afterFirst sep s) sep"
    by (rule Split_append [OF sep_notin_beforeFirst])
  with split_at_first [OF assms] show ?thesis by simp
qed

lemma hd_Split: "hd (Split s sep) = beforeFirst sep s"
  by (induction s) (auto split: list.splits simp: Split_not_Nil beforeFirst_def)

lemma count_list_0_iff: "count_list s c = 0 \<longleftrightarrow> c \<notin> set s"
  by (induction s) auto

lemma count_afterFirst:
  "sep \<in> set s \<Longrightarrow> count_list s sep = Suc (count_list (afterFirst sep s) sep)"
  unfolding afterFirst_def by (induction s) auto

lemma Split_two:
  assumes "count_list s sep = 1"
  shows "Split s sep = [beforeFirst sep s, afterFirst sep s]"
proof -
  from assms have m: "sep \<in> set s"
    using count_list_0_iff [of s sep] by auto
  with assms have "count_list (afterFirst sep s) sep = 0"
    using count_afterFirst by fastforce
  then have "sep \<notin> set (afterFirst sep s)"
    by (simp add: count_list_0_iff)
  then show ?thesis
    using Split_first [OF m] Split_no_sep by simp
qed

lemma set_Split: "p \<in> set (Split s sep) \<Longrightarrow> set p \<subseteq> set s"
  by (induction s arbitrary: p) (fastforce split: if_splits list.splits)+


section \<open>Facts about \<open>ParseInt\<close> and \<open>int32\<close>\<close>

lemmas parse_defs =
  NewFromString_def splitExponent_def IndexAny_def ParseInt_def ParseUint_def
  SetString_def isDigit_def digitVal_def

lemmas param_defs =
  parseDecimalParams_def Contains_def DefaultPrecision_def DefaultScale_def

lemma ParseInt_Nil: "ParseInt [] b = None"
  by (simp add: ParseInt_def)

lemma ParseInt_range: "ParseInt s 32 = Some n \<Longrightarrow> - (2 ^ 31) \<le> n \<and> n < 2 ^ 31"
  by (auto simp: ParseInt_def Let_def split: list.splits option.splits if_splits)

lemma ParseInt_nonneg: "ParseInt s b = Some n \<Longrightarrow> CHR ''-'' \<notin> set s \<Longrightarrow> 0 \<le> n"
  by (auto simp: ParseInt_def Let_def split: list.splits option.splits if_splits)

lemma sint_word_of_int_32:
  "- (2 ^ 31) \<le> n \<Longrightarrow> n < 2 ^ 31 \<Longrightarrow> sint (word_of_int n :: int32) = n"
  by (simp add: sint_sbintrunc' signed_take_bit_int_eq_self)

lemma sint_of_nat_32: "n < 2 ^ 31 \<Longrightarrow> sint (word_of_nat n :: int32) = int n"
  using sint_word_of_int_32 [of "int n"] by simp

lemma ParseInt_word_nonneg:
  "ParseInt s 32 = Some x \<Longrightarrow> CHR ''-'' \<notin> set s \<Longrightarrow> 0 \<le> sint (word_of_int x :: int32)"
  using ParseInt_range [of s x] ParseInt_nonneg [of s 32 x]
  by (simp add: sint_word_of_int_32)


section \<open>The parameter of the \<open>decimal\<close> rule\<close>

lemma parseDecimalParams_colon:
  "CHR '':'' \<notin> set a \<Longrightarrow> CHR '':'' \<notin> set b \<Longrightarrow>
   parseDecimalParams (a @ CHR '':'' # b) =
     ((case ParseInt a 32 of Some p \<Rightarrow> word_of_int p | None \<Rightarrow> 38),
      (case ParseInt b 32 of Some s \<Rightarrow> word_of_int s | None \<Rightarrow> 18))"
  by (simp add: param_defs Split_append Split_no_sep split: option.splits)

lemma parseDecimalParams_no_colon:
  "CHR '':'' \<notin> set param \<Longrightarrow>
   parseDecimalParams param =
     (38, (case ParseInt param 32 of Some s \<Rightarrow> word_of_int s | None \<Rightarrow> 18))"
  by (auto simp add: param_defs ParseInt_Nil split: option.splits)

lemma parseDecimalParams_examples:
  "parseDecimalParams '''' = (38, 18)"
  "parseDecimalParams ''2'' = (38, 2)"
  "parseDecimalParams ''10:6'' = (10, 6)"
  "parseDecimalParams ''abc:def'' = (38, 18)"
  "parseDecimalParams ''10:abc'' = (10, 18)"
  by (simp_all add: param_defs parse_defs)

text \<open>
  C2: \<open>parseDecimalParams\<close> maps the empty parameter to (38, 18); a parameter with a single
  colon is split at it, each half is parsed on its own by \<open>ParseInt\<close> in base 10, and a half
  that fails to parse keeps its default (38 for the precision, 18 for the scale) without
  touching the other half; a parameter without a colon sets only the scale and leaves
  the precision at 38. The five values of the specification follow.
\<close>

theorem parseDecimalParams_forms:
  "parseDecimalParams '''' = (38, 18)
   \<and> (CHR '':'' \<notin> set a \<and> CHR '':'' \<notin> set b \<longrightarrow>
        parseDecimalParams (a @ '':'' @ b) =
          ((case ParseInt a 32 of Some p \<Rightarrow> word_of_int p | None \<Rightarrow> 38),
           (case ParseInt b 32 of Some s \<Rightarrow> word_of_int s | None \<Rightarrow> 18)))
   \<and> (CHR '':'' \<notin> set param \<longrightarrow>
        parseDecimalParams param =
          (38, (case ParseInt param 32 of Some s \<Rightarrow> word_of_int s | None \<Rightarrow> 18)))
   \<and> parseDecimalParams ''2'' = (38, 2)
   \<and> parseDecimalParams ''10:6'' = (10, 6)
   \<and> parseDecimalParams ''abc:def'' = (38, 18)
   \<and> parseDecimalParams ''10:abc'' = (10, 18)"
  by (intro conjI impI; (elim conjE)?)
    (simp_all add: parseDecimalParams_examples parseDecimalParams_colon
      parseDecimalParams_no_colon)

theorem parseDecimalParams_forms_witness:
  "CHR '':'' \<notin> set ''abc'' \<and> CHR '':'' \<notin> set ''6'' \<and> CHR '':'' \<notin> set ''18''
   \<and> parseDecimalParams (''abc'' @ '':'' @ ''6'') = (38, 6)
   \<and> parseDecimalParams ''18'' = (38, 18)"
  using parseDecimalParams_forms [of "''abc''" "''6''" "''18''"]
  by (simp add: parse_defs)

text \<open>
  C7 does not hold as stated: a half written with a minus sign is accepted by \<open>ParseInt\<close>
  and stored as it is, so \<open>"-5"\<close> yields the scale -5.
\<close>

theorem parseDecimalParams_negative_scale:
  "parseDecimalParams ''-5'' = (38, - 5) \<and> sint (snd (parseDecimalParams ''-5'')) < 0"
  by (simp add: param_defs parse_defs)

text \<open>
  C7, as the code has it: for every parameter string \<open>parseDecimalParams\<close> returns a pair
  (it has no error result), and both numbers are non-negative whenever the parameter
  contains no minus sign.
\<close>

theorem parseDecimalParams_total_nonneg:
  "(\<exists>precision scale. parseDecimalParams param = (precision, scale))
   \<and> (CHR ''-'' \<notin> set param \<longrightarrow>
        0 \<le> sint (fst (parseDecimalParams param)) \<and> 0 \<le> sint (snd (parseDecimalParams param)))"
proof (intro conjI impI)
  show "\<exists>precision scale. parseDecimalParams param = (precision, scale)"
    by (cases "parseDecimalParams param") simp
next
  assume nominus: "CHR ''-'' \<notin> set param"
  show "0 \<le> sint (fst (parseDecimalParams param))"
  proof (cases "CHR '':'' \<in> set param \<and> length (Split param (CHR '':'')) = 2")
    case True
    then have "Split param (CHR '':'') ! 0 \<in> set (Split param (CHR '':''))"
      by simp
    then have "CHR ''-'' \<notin> set (Split param (CHR '':'') ! 0)"
      using set_Split nominus by blast
    with True show ?thesis
      by (auto simp add: param_defs Let_def ParseInt_word_nonneg split: option.splits)
  next
    case False
    then show ?thesis
      by (auto simp add: param_defs Let_def split: option.splits)
  qed
  show "0 \<le> sint (snd (parseDecimalParams param))"
  proof (cases "CHR '':'' \<in> set param \<and> length (Split param (CHR '':'')) = 2")
    case True
    then have "Split param (CHR '':'') ! 1 \<in> set (Split param (CHR '':''))"
      by simp
    then have "CHR ''-'' \<notin> set (Split param (CHR '':'') ! 1)"
      using set_Split nominus by blast
    with True show ?thesis
      by (auto simp add: param_defs Let_def ParseInt_word_nonneg split: option.splits)
  next
    case False
    then show ?thesis using nominus
      by (auto simp add: param_defs Let_def ParseInt_word_nonneg split: option.splits)
  qed
qed

theorem parseDecimalParams_total_nonneg_witness:
  "CHR ''-'' \<notin> set ''10:6''
   \<and> 0 \<le> sint (fst (parseDecimalParams ''10:6'')) \<and> 0 \<le> sint (snd (parseDecimalParams ''10:6''))"
  using parseDecimalParams_total_nonneg [of "''10:6''"]
  by simp


section \<open>The parameter of the \<open>decimal_if\<close> rule\<close>

lemma parseDecimalIfParam_Inr_iff:
  "(\<exists>r. parseDecimalIfParam param = Inr r) \<longleftrightarrow>
     count_list param (CHR ''@'') = 1
     \<and> count_list (afterFirst (CHR ''@'') param) (CHR ''='') = 1"
  by (auto simp: parseDecimalIfParam_def Let_def length_Split Split_two)

lemma parseDecimalIfParam_compose:
  assumes "CHR ''@'' \<notin> set rule" "CHR ''@'' \<notin> set field" "CHR ''='' \<notin> set field"
    "CHR ''@'' \<notin> set expect" "CHR ''='' \<notin> set expect"
  shows "parseDecimalIfParam (rule @ ''@'' @ field @ ''='' @ expect) = Inr (rule, field, expect)"
  using assms by (simp add: parseDecimalIfParam_def Let_def Split_append Split_no_sep)

lemma validateDecimalIf_parse_error:
  "parseDecimalIfParam (Param fl) = Inl e \<Longrightarrow> validateDecimalIf fl = False"
  by (simp add: validateDecimalIf_def)

lemma parseDecimalIfParam_examples:
  "parseDecimalIfParam ''2@Mode=mode1'' = Inr (''2'', ''Mode'', ''mode1'')"
  "parseDecimalIfParam ''@Status=active'' = Inr ('''', ''Status'', ''active'')"
  "parseDecimalIfParam ''2Mode=mode1'' = Inl ValidationErrors"
  by (simp_all add: parseDecimalIfParam_def)

text \<open>
  C4: \<open>parseDecimalIfParam\<close> succeeds exactly on the parameters that contain exactly one
  \<open>@\<close> and, in the text after it, exactly one \<open>=\<close>; every other parameter is a parse
  error, and \<open>validateDecimalIf\<close> answers a parse error with \<open>false\<close>. The three
  components are the texts between the separators and may be empty. The three values
  of the specification follow.
\<close>

theorem parseDecimalIfParam_separators:
  "((\<exists>r. parseDecimalIfParam param = Inr r) \<longleftrightarrow>
      count_list param (CHR ''@'') = 1
      \<and> count_list (afterFirst (CHR ''@'') param) (CHR ''='') = 1)
   \<and> ((\<forall>r. parseDecimalIfParam param \<noteq> Inr r) \<longrightarrow>
        parseDecimalIfParam param = Inl ValidationErrors)
   \<and> (parseDecimalIfParam (Param fl) = Inl ValidationErrors \<longrightarrow> validateDecimalIf fl = False)
   \<and> (CHR ''@'' \<notin> set rule \<and> CHR ''@'' \<notin> set field \<and> CHR ''='' \<notin> set field
        \<and> CHR ''@'' \<notin> set expect \<and> CHR ''='' \<notin> set expect \<longrightarrow>
        parseDecimalIfParam (rule @ ''@'' @ field @ ''='' @ expect) = Inr (rule, field, expect))
   \<and> parseDecimalIfParam ''2@Mode=mode1'' = Inr (''2'', ''Mode'', ''mode1'')
   \<and> parseDecimalIfParam ''@Status=active'' = Inr ('''', ''Status'', ''active'')
   \<and> parseDecimalIfParam ''2Mode=mode1'' = Inl ValidationErrors"
proof -
  have "(\<forall>r. parseDecimalIfParam param \<noteq> Inr r) \<longrightarrow>
          parseDecimalIfParam param = Inl ValidationErrors"
    by (cases "parseDecimalIfParam param") (auto intro: error.exhaust)
  then show ?thesis
    using parseDecimalIfParam_Inr_iff [of param] validateDecimalIf_parse_error [of fl]
      parseDecimalIfParam_compose [of rule field expect]
    by (simp only: parseDecimalIfParam_examples simp_thms) blast
qed

theorem parseDecimalIfParam_separators_witness:
  "count_list ''38:19@Mode=mode2'' (CHR ''@'') = 1
   \<and> count_list (afterFirst (CHR ''@'') ''38:19@Mode=mode2'') (CHR ''='') = 1
   \<and> (\<exists>r. parseDecimalIfParam ''38:19@Mode=mode2'' = Inr r)
   \<and> parseDecimalIfParam (''2'' @ ''@'' @ '''' @ ''='' @ '''') = Inr (''2'', '''', '''')"
  using parseDecimalIfParam_separators
    [of "''38:19@Mode=mode2''" "\<lparr>Field = StringValue ''1'', Param = ''2'', Parent = Map.empty\<rparr>"
        "''2''" "''''" "''''"]
  by (simp add: afterFirst_def)


section \<open>The \<open>decimal_if\<close> rule\<close>

text \<open>
  C3: when the parameter of \<open>decimal_if\<close> parses and the named sibling field exists, but
  its string value differs from the expected value, the rule passes whatever the target
  field holds; the target is not looked at, so a malformed one such as
  \<open>"not-a-number"\<close> passes too.
\<close>

theorem validateDecimalIf_condition_unmet:
  "parseDecimalIfParam (Param fl) = Inr (rule, field, expect) \<Longrightarrow>
   Parent fl field = Some other \<Longrightarrow>
   rvalue_String other \<noteq> expect \<Longrightarrow>
   validateDecimalIf (fl\<lparr>Field := target\<rparr>) = True"
  by (simp add: validateDecimalIf_def)

theorem validateDecimalIf_condition_unmet_witness:
  "parseDecimalIfParam ''2@Type=credit'' = Inr (''2'', ''Type'', ''credit'')
   \<and> rvalue_String (StringValue ''debit'') \<noteq> ''credit''
   \<and> validateDecimalIf
        \<lparr>Field = StringValue ''not-a-number'', Param = ''2@Type=credit'',
         Parent = [''Type'' \<mapsto> StringValue ''debit'']\<rparr> = True"
proof -
  have p: "parseDecimalIfParam ''2@Type=credit'' = Inr (''2'', ''Type'', ''credit'')"
    by (simp add: parseDecimalIfParam_def)
  show ?thesis
    using validateDecimalIf_condition_unmet
      [of "\<lparr>Field = StringValue ''0'', Param = ''2@Type=credit'',
            Parent = [''Type'' \<mapsto> StringValue ''debit'']\<rparr>"
          "''2''" "''Type''" "''credit''" "StringValue ''debit''"
          "StringValue ''not-a-number''"]
    by (simp add: p)
qed

text \<open>
  C8: when the parameter of \<open>decimal_if\<close> parses but the parent structure has no field of
  the given name, the rule fails, whatever the target field holds.
\<close>

theorem validateDecimalIf_sibling_missing:
  "parseDecimalIfParam (Param fl) = Inr (rule, field, expect) \<Longrightarrow>
   Parent fl field = None \<Longrightarrow>
   validateDecimalIf (fl\<lparr>Field := target\<rparr>) = False"
  by (simp add: validateDecimalIf_def)

theorem validateDecimalIf_sibling_missing_witness:
  "parseDecimalIfParam ''2@Typo=credit'' = Inr (''2'', ''Typo'', ''credit'')
   \<and> validateDecimalIf
        \<lparr>Field = StringValue ''100.50'', Param = ''2@Typo=credit'',
         Parent = [''Type'' \<mapsto> StringValue ''credit'']\<rparr> = False"
proof -
  have p: "parseDecimalIfParam ''2@Typo=credit'' = Inr (''2'', ''Typo'', ''credit'')"
    by (simp add: parseDecimalIfParam_def)
  show ?thesis
    using validateDecimalIf_sibling_missing
      [of "\<lparr>Field = StringValue ''0'', Param = ''2@Typo=credit'',
            Parent = [''Type'' \<mapsto> StringValue ''credit'']\<rparr>"
          "''2''" "''Typo''" "''credit''" "StringValue ''100.50''"]
    by (simp add: p)
qed


section \<open>The comparison rules\<close>

lemma validateDecimalOperation_fail_closed:
  "Field fl = StringValue data \<Longrightarrow>
   NewFromString data = None \<or> NewFromString (Param fl) = None \<Longrightarrow>
   validateDecimalOperation comparator fl = False"
  by (auto simp add: validateDecimalOperation_def split: option.splits)

lemma NewFromString_abc: "NewFromString ''abc'' = None"
  by (simp add: parse_defs)

text \<open>
  C5: each of the six comparison rules parses the field's string and the rule's parameter
  on their own and answers \<open>false\<close> as soon as one of the two does not parse; the answer
  is a plain boolean, the same as for a comparison that does not hold. So \<open>dgt=100\<close>
  fails on the field value \<open>"abc"\<close>, and \<open>dgt=abc\<close> fails on the field value \<open>"150"\<close>.
\<close>

theorem comparison_rules_fail_closed:
  "(Field fl = StringValue data
      \<and> (NewFromString data = None \<or> NewFromString (Param fl) = None) \<longrightarrow>
      \<not> dgt fl \<and> \<not> dgte fl \<and> \<not> dlt fl \<and> \<not> dlte fl \<and> \<not> deq fl \<and> \<not> dneq fl)
   \<and> \<not> dgt \<lparr>Field = StringValue ''abc'', Param = ''100'', Parent = parent\<rparr>
   \<and> \<not> dgt \<lparr>Field = StringValue ''150'', Param = ''abc'', Parent = parent\<rparr>"
  using validateDecimalOperation_fail_closed [of fl data]
    validateDecimalOperation_fail_closed
      [of "\<lparr>Field = StringValue ''abc'', Param = ''100'', Parent = parent\<rparr>" "''abc''"]
    validateDecimalOperation_fail_closed
      [of "\<lparr>Field = StringValue ''150'', Param = ''abc'', Parent = parent\<rparr>" "''150''"]
  by (simp add: dgt_def dgte_def dlt_def dlte_def deq_def dneq_def NewFromString_abc)

theorem comparison_rules_fail_closed_witness:
  "NewFromString ''1.2.3'' = None
   \<and> \<not> deq \<lparr>Field = StringValue ''1.2.3'', Param = ''1.2'', Parent = Map.empty\<rparr>
   \<and> \<not> dneq \<lparr>Field = StringValue ''1.2.3'', Param = ''1.2'', Parent = Map.empty\<rparr>"
proof -
  have p: "NewFromString ''1.2.3'' = None"
    by (simp add: parse_defs)
  show ?thesis
    using comparison_rules_fail_closed
      [of "\<lparr>Field = StringValue ''1.2.3'', Param = ''1.2'', Parent = Map.empty\<rparr>" "''1.2.3''"]
    by (simp add: p)
qed



section \<open>The canonical text of a decimal\<close>

lemma digitChar_isDigit: "d < 10 \<Longrightarrow> isDigit (digitChar d)"
proof -
  assume "d < 10"
  then have "d \<in> {0, 1, 2, 3, 4, 5, 6, 7, 8, 9}" by auto
  then show ?thesis by (auto simp: digitChar_def isDigit_def)
qed

lemma natString_digits: "list_all isDigit (natString n)"
proof (induction n rule: natString.induct)
  case (1 n)
  show ?case
  proof (cases "n < 10")
    case True
    then show ?thesis by (simp add: natString.simps [of n] digitChar_isDigit)
  next
    case False
    then show ?thesis using 1 by (simp add: natString.simps [of n] digitChar_isDigit)
  qed
qed

lemma natString_not_Nil: "natString n \<noteq> []"
  by (subst natString.simps) simp

lemma isDigit_not_point: "isDigit c \<Longrightarrow> c \<noteq> CHR ''.''"
  by (auto simp: isDigit_def)

lemma isDigit_zero: "isDigit (CHR ''0'')"
  by (simp add: isDigit_def)

lemma count_digits_point: "list_all isDigit s \<Longrightarrow> count_list s (CHR ''.'') = 0"
  by (induction s) (auto simp: isDigit_not_point)

lemma list_all_trimTrailingZeros: "list_all P s \<Longrightarrow> list_all P (trimTrailingZeros s)"
proof -
  assume "list_all P s"
  then have "list_all P (rev s)"
    by (simp add: list_all_iff)
  then have "list_all P (dropWhile (\<lambda>c. c = CHR ''0'') (rev s))"
    by (metis (no_types, lifting) list_all_iff set_dropWhileD)
  then show ?thesis
    by (simp add: trimTrailingZeros_def list_all_iff)
qed

lemma Decimal_String_points: "count_list (Decimal_String d) (CHR ''.'') \<le> 1"
proof (cases "0 \<le> sint (exp_d d)")
  case True
  then show ?thesis
    by (simp add: Decimal_String_def bigString_def count_digits_point natString_digits)
next
  case False
  define str where "str = natString (nat \<bar>value_d d\<bar>)"
  have ds: "list_all isDigit str"
    by (simp add: str_def natString_digits)
  have parts:
    "count_list (take k str) (CHR ''.'') = 0"
    "count_list (trimTrailingZeros (drop k str)) (CHR ''.'') = 0"
    "count_list (trimTrailingZeros (replicate k (CHR ''0'') @ str)) (CHR ''.'') = 0" for k
  proof -
    have t: "list_all isDigit (take k str)"
      using ds by (auto simp: list_all_iff dest: in_set_takeD)
    have dr: "list_all isDigit (drop k str)"
      using ds by (auto simp: list_all_iff dest: in_set_dropD)
    have rp: "list_all isDigit (replicate k (CHR ''0'') @ str)"
      using ds by (auto simp: list_all_iff isDigit_zero)
    show "count_list (take k str) (CHR ''.'') = 0"
      using t by (rule count_digits_point)
    show "count_list (trimTrailingZeros (drop k str)) (CHR ''.'') = 0"
      using dr by (intro count_digits_point list_all_trimTrailingZeros)
    show "count_list (trimTrailingZeros (replicate k (CHR ''0'') @ str)) (CHR ''.'') = 0"
      using rp by (intro count_digits_point list_all_trimTrailingZeros)
  qed
  show ?thesis
    using False parts by (simp add: Decimal_String_def Let_def str_def [symmetric])
qed


section \<open>The precision and scale check\<close>

lemma TrimPrefix_minus: "TrimPrefix s ''-'' = unsignedText s"
  by (cases s) (auto simp: TrimPrefix_def unsignedText_def)

lemma afterFirst_no_sep: "sep \<notin> set s \<Longrightarrow> afterFirst sep s = []"
  unfolding afterFirst_def by (induction s) auto

lemma second_part:
  assumes "count_list u sep \<le> 1"
  shows "(if length (Split u sep) > 1 then Split u sep ! 1 else []) = afterFirst sep u"
proof (cases "count_list u sep = 0")
  case True
  then have "sep \<notin> set u"
    by (simp add: count_list_0_iff)
  then show ?thesis
    by (simp add: Split_no_sep afterFirst_no_sep)
next
  case False
  with assms have "count_list u sep = 1" by simp
  then show ?thesis
    by (simp add: Split_two)
qed

lemma code_normalize:
  "(if ip \<noteq> ''0'' then (let t = TrimLeft ip ''0'' in if t = [] then ''0'' else t) else ip)
     = normalizeInteger ip"
  by (auto simp: TrimLeft_def normalizeInteger_def Let_def)

lemma normalizeInteger_not_Nil: "normalizeInteger ip \<noteq> []"
  by (simp add: normalizeInteger_def Let_def)

lemma length_normalizeInteger: "length (normalizeInteger ip) \<le> max 1 (length ip)"
  using length_dropWhile_le [of "\<lambda>c. c = CHR ''0''" ip]
  by (auto simp: normalizeInteger_def Let_def)

lemma length_unsignedText: "length (unsignedText s) \<le> length s"
  by (cases s) (auto simp: unsignedText_def)

lemma length_beforeFirst: "length (beforeFirst sep s) \<le> length s"
  by (simp add: beforeFirst_def length_takeWhile_le)

lemma length_afterFirst: "length (afterFirst sep s) \<le> length s"
  using length_dropWhile_le [of "\<lambda>c. c \<noteq> sep" s] by (simp add: afterFirst_def)

lemma count_unsignedText: "count_list (unsignedText s) (CHR ''.'') \<le> count_list s (CHR ''.'')"
  by (cases s) (auto simp: unsignedText_def)

text \<open>The check in terms of the two digit counts, still in \<open>int32\<close> arithmetic.\<close>

lemma validateDecimalPrecisionScale_counts:
  "validateDecimalPrecisionScale v precision scale =
     (\<not> scale <s word_of_nat (fractionalDigits v)
      \<and> word_of_nat (integerDigits v) <=s precision - scale)"
proof -
  have "count_list (unsignedText (Decimal_String v)) (CHR ''.'') \<le> 1"
    using count_unsignedText [of "Decimal_String v"] Decimal_String_points [of v]
    by linarith
  from second_part [OF this] show ?thesis
    unfolding validateDecimalPrecisionScale_def TrimPrefix_minus code_normalize
      fractionalDigits_def integerDigits_def
    by (simp add: Let_def hd_Split)
qed

lemma digit_bounds:
  assumes "length (Decimal_String v) < 2 ^ 31"
  shows "fractionalDigits v < 2 ^ 31" "integerDigits v < 2 ^ 31"
proof -
  let ?u = "unsignedText (Decimal_String v)"
  have u: "length ?u < 2 ^ 31"
    using assms length_unsignedText [of "Decimal_String v"] by linarith
  show "fractionalDigits v < 2 ^ 31"
    using u length_afterFirst [of "CHR ''.''" ?u] by (simp add: fractionalDigits_def)
  show "integerDigits v < 2 ^ 31"
    using u length_beforeFirst [of "CHR ''.''" ?u]
      length_normalizeInteger [of "beforeFirst (CHR ''.'') ?u"]
    by (simp add: integerDigits_def)
qed

lemma integerDigits_pos: "1 \<le> integerDigits v"
  using normalizeInteger_not_Nil [of "beforeFirst (CHR ''.'') (unsignedText (Decimal_String v))"]
  by (simp add: integerDigits_def Suc_le_eq)

lemma validateDecimalPrecisionScale_int:
  assumes "length (Decimal_String v) < 2 ^ 31"
    and "- (2 ^ 31) \<le> sint precision - sint scale"
    and "sint precision - sint scale < 2 ^ 31"
  shows "validateDecimalPrecisionScale v precision scale \<longleftrightarrow>
     int (fractionalDigits v) \<le> sint scale
     \<and> int (integerDigits v) \<le> sint precision - sint scale"
proof -
  have "sint (precision - scale) = sint precision - sint scale"
    using assms(2,3) by (simp add: sint_word_diff signed_take_bit_int_eq_self)
  then show ?thesis
    using digit_bounds [OF assms(1)]
    by (simp add: validateDecimalPrecisionScale_counts word_sless_alt word_sle_eq
        sint_of_nat_32 not_less)
qed

lemma nonneg_limits_fit:
  assumes "0 \<le> sint (precision :: int32)" "0 \<le> sint (scale :: int32)"
  shows "- (2 ^ 31) \<le> sint precision - sint scale \<and> sint precision - sint scale < 2 ^ 31"
  using assms sint_lt [of precision] sint_lt [of scale] by simp

lemmas string_defs =
  Decimal_String_def rescale_def bigString_def natString.simps digitChar_def
  trimTrailingZeros_def Quo_def

lemmas validate_defs =
  validateDecimalPrecisionScale_def TrimPrefix_def TrimLeft_def word_sless_alt word_sle_eq

lemmas count_defs =
  fractionalDigits_def integerDigits_def unsignedText_def normalizeInteger_def
  beforeFirst_def afterFirst_def

lemma boundary_parses:
  "NewFromString ''12345678'' = Some \<lparr>value_d = 12345678, exp_d = 0\<rparr>"
  "NewFromString ''123456789'' = Some \<lparr>value_d = 123456789, exp_d = 0\<rparr>"
  "NewFromString ''1234567890'' = Some \<lparr>value_d = 1234567890, exp_d = 0\<rparr>"
  "NewFromString ''12345678901'' = Some \<lparr>value_d = 12345678901, exp_d = 0\<rparr>"
  by (simp_all add: parse_defs)

lemma boundary_texts:
  "Decimal_String \<lparr>value_d = 12345678, exp_d = 0\<rparr> = ''12345678''"
  "Decimal_String \<lparr>value_d = 123456789, exp_d = 0\<rparr> = ''123456789''"
  "Decimal_String \<lparr>value_d = 1234567890, exp_d = 0\<rparr> = ''1234567890''"
  "Decimal_String \<lparr>value_d = 12345678901, exp_d = 0\<rparr> = ''12345678901''"
  by (simp_all add: string_defs)

lemma boundary_checks:
  "validateDecimalPrecisionScale \<lparr>value_d = 12345678, exp_d = 0\<rparr> 10 2"
  "\<not> validateDecimalPrecisionScale \<lparr>value_d = 123456789, exp_d = 0\<rparr> 10 2"
  "validateDecimalPrecisionScale \<lparr>value_d = 1234567890, exp_d = 0\<rparr> 10 0"
  "\<not> validateDecimalPrecisionScale \<lparr>value_d = 12345678901, exp_d = 0\<rparr> 10 0"
  by (simp_all add: validate_defs boundary_texts)

lemma validateDecimalPrecisionScale_word:
  assumes "length (Decimal_String v) < 2 ^ 31"
  shows "validateDecimalPrecisionScale v precision scale \<longleftrightarrow>
     int (fractionalDigits v) \<le> sint scale
     \<and> int (integerDigits v) \<le> sint (precision - scale)"
  using digit_bounds [OF assms]
  by (simp add: validateDecimalPrecisionScale_counts word_sless_alt word_sle_eq
      sint_of_nat_32 not_less)

lemma nonneg_limits_difference:
  assumes "0 \<le> sint (precision :: int32)" "0 \<le> sint (scale :: int32)"
  shows "sint (precision - scale) = sint precision - sint scale"
  using nonneg_limits_fit [OF assms]
  by (simp add: sint_word_diff signed_take_bit_int_eq_self)

text \<open>
  C1: for every decimal value (with a canonical text shorter than \<open>2^31\<close> bytes, so that
  its digit counts are \<open>int32\<close> values) and every limit pair,
  \<open>validateDecimalPrecisionScale\<close> is true exactly when the number of fractional digits
  is at most \<open>scale\<close> and the number of normalized integer digits is at most
  \<open>precision - scale\<close>. The difference is the one the code computes, in \<open>int32\<close>; for
  limits that are not negative it is the exact difference. \<open>"12345678"\<close> passes (10,2),
  \<open>"123456789"\<close> fails (10,2), \<open>"1234567890"\<close> passes (10,0) and \<open>"12345678901"\<close>
  fails (10,0).
\<close>

theorem validateDecimalPrecisionScale_iff:
  "(length (Decimal_String v) < 2 ^ 31 \<longrightarrow>
      (validateDecimalPrecisionScale v precision scale \<longleftrightarrow>
         int (fractionalDigits v) \<le> sint scale
         \<and> int (integerDigits v) \<le> sint (precision - scale)))
   \<and> (0 \<le> sint precision \<and> 0 \<le> sint scale \<longrightarrow>
        sint (precision - scale) = sint precision - sint scale)
   \<and> map_option (\<lambda>d. validateDecimalPrecisionScale d 10 2) (NewFromString ''12345678'')
        = Some True
   \<and> map_option (\<lambda>d. validateDecimalPrecisionScale d 10 2) (NewFromString ''123456789'')
        = Some False
   \<and> map_option (\<lambda>d. validateDecimalPrecisionScale d 10 0) (NewFromString ''1234567890'')
        = Some True
   \<and> map_option (\<lambda>d. validateDecimalPrecisionScale d 10 0) (NewFromString ''12345678901'')
        = Some False"
  using validateDecimalPrecisionScale_word [of v precision scale]
    nonneg_limits_difference [of precision scale]
  by (simp add: boundary_parses boundary_checks)

lemma sample_text: "Decimal_String \<lparr>value_d = - 12345, exp_d = - 2\<rparr> = ''-123.45''"
  by (simp add: string_defs)

theorem validateDecimalPrecisionScale_iff_witness:
  "length (Decimal_String \<lparr>value_d = - 12345, exp_d = - 2\<rparr>) < 2 ^ 31
   \<and> 0 \<le> sint (5 :: int32) \<and> 0 \<le> sint (2 :: int32)
   \<and> fractionalDigits \<lparr>value_d = - 12345, exp_d = - 2\<rparr> = 2
   \<and> integerDigits \<lparr>value_d = - 12345, exp_d = - 2\<rparr> = 3
   \<and> sint (5 - 2 :: int32) = 3
   \<and> validateDecimalPrecisionScale \<lparr>value_d = - 12345, exp_d = - 2\<rparr> 5 2"
  using validateDecimalPrecisionScale_iff [of "\<lparr>value_d = - 12345, exp_d = - 2\<rparr>" 5 2]
  by (simp add: sample_text count_defs)

text \<open>
  C10: when precision equals scale, \<open>validateDecimalPrecisionScale\<close> is false for every
  decimal value (with a canonical text shorter than \<open>2^31\<close> bytes): the normalized integer
  part always has at least one digit, which exceeds the zero integer digits allowed.
\<close>

theorem validateDecimalPrecisionScale_equal_limits:
  "1 \<le> integerDigits v
   \<and> (length (Decimal_String v) < 2 ^ 31 \<longrightarrow>
        \<not> validateDecimalPrecisionScale v precision precision)"
  using digit_bounds [of v] integerDigits_pos [of v]
  by (simp add: validateDecimalPrecisionScale_counts word_sless_alt word_sle_eq
      sint_of_nat_32 not_less)

lemma half_text: "Decimal_String \<lparr>value_d = 5, exp_d = - 1\<rparr> = ''0.5''"
  by (simp add: string_defs)

theorem validateDecimalPrecisionScale_equal_limits_witness:
  "length (Decimal_String \<lparr>value_d = 5, exp_d = - 1\<rparr>) < 2 ^ 31
   \<and> integerDigits \<lparr>value_d = 5, exp_d = - 1\<rparr> = 1
   \<and> \<not> validateDecimalPrecisionScale \<lparr>value_d = 5, exp_d = - 1\<rparr> 2 2"
  using validateDecimalPrecisionScale_equal_limits [of "\<lparr>value_d = 5, exp_d = - 1\<rparr>" 2]
  by (simp add: half_text count_defs)


section \<open>The integer parsers\<close>

lemma parseDigits_eq:
  "parseDigits acc s = (if list_all isDigit s then Some (foldl (\<lambda>a c. a * 10 + digitVal c) acc s) else None)"
  by (induction s arbitrary: acc) auto

lemma ParseUint_eq: "ParseUint s = (if s \<noteq> [] \<and> list_all isDigit s then Some (digitsValue s) else None)"
  by (simp add: ParseUint_def parseDigits_eq digitsValue_def)

lemma SetString_eq: "SetString s = (if signedDigits s then Some (signedValue s) else None)"
  by (cases s) (auto simp: SetString_def ParseUint_eq signedDigits_def signedValue_def unsignedPart_def Let_def)

lemma neg_power_le_nat: "- (2 ^ k) \<le> int n"
  by (rule order_trans [where y = 0]) simp_all

lemma neg_nat_less_power: "- int n < 2 ^ k"
  by (rule le_less_trans [where y = 0]) simp_all

lemma ParseInt_eq:
  "ParseInt s b = (if signedDigits s \<and> - (2 ^ (b - 1)) \<le> signedValue s \<and> signedValue s < 2 ^ (b - 1) then Some (signedValue s) else None)"
proof (cases s)
  case Nil
  then show ?thesis by (simp add: ParseInt_def signedDigits_def unsignedPart_def)
next
  case (Cons c r)
  then show ?thesis
    by (auto simp: ParseInt_def ParseUint_eq signedDigits_def signedValue_def unsignedPart_def Let_def
        neg_power_le_nat neg_nat_less_power)
qed

lemma digitVal_le: "isDigit c \<Longrightarrow> digitVal c \<le> 9"
  by (auto simp: isDigit_def digitVal_def)

lemma foldl_digits_bound:
  "list_all isDigit s \<Longrightarrow> foldl (\<lambda>a c. a * 10 + digitVal c) acc s < (acc + 1) * 10 ^ length s"
proof (induction s arbitrary: acc)
  case Nil
  then show ?case by simp
next
  case (Cons c s)
  then have "foldl (\<lambda>a c. a * 10 + digitVal c) (acc * 10 + digitVal c) s < (acc * 10 + digitVal c + 1) * 10 ^ length s"
    by simp
  also have "\<dots> \<le> ((acc + 1) * 10) * 10 ^ length s"
    using digitVal_le[of c] Cons.prems by (intro mult_right_mono) auto
  finally show ?case by (simp add: algebra_simps)
qed

lemma digitsValue_bound: "list_all isDigit s \<Longrightarrow> digitsValue s < 10 ^ length s"
  using foldl_digits_bound[of s 0] by (simp add: digitsValue_def)

lemma foldl_digits_append_acc:
  "foldl (\<lambda>a c. a * 10 + digitVal c) acc s = acc * 10 ^ length s + foldl (\<lambda>a c. a * 10 + digitVal c) 0 s"
proof (induction s arbitrary: acc)
  case Nil
  then show ?case by simp
next
  case (Cons c s)
  show ?case
    using Cons[of "acc * 10 + digitVal c"] Cons[of "digitVal c"]
    by (simp add: algebra_simps)
qed

lemma digitsValue_append: "digitsValue (a @ b) = digitsValue a * 10 ^ length b + digitsValue b"
  using foldl_digits_append_acc[of "digitsValue a" b] by (simp add: digitsValue_def)


section \<open>The decimal parser\<close>

lemma mantissa_no_exponent: "\<not> hasExponent s \<Longrightarrow> mantissaText s = s"
  by (auto simp: hasExponent_def mantissaText_def list_ex_iff)

lemma IndexAny_exponent:
  "IndexAny s ''Ee'' = (if hasExponent s then Some (length (mantissaText s)) else None)"
  unfolding IndexAny_def hasExponent_def mantissaText_def by (rule refl)

lemma take_mantissa: "take (length (mantissaText s)) s = mantissaText s"
  unfolding mantissaText_def by (rule takeWhile_eq_take [symmetric])

lemma drop_mantissa: "drop (Suc (length (mantissaText s))) s = exponentText s"
  unfolding mantissaText_def exponentText_def by (simp add: dropWhile_eq_drop)

lemma splitExponent_eq:
  "splitExponent s =
     (if hasExponent s
      then (if signedDigits (exponentText s)
               \<and> - (2 ^ 31) \<le> signedValue (exponentText s) \<and> signedValue (exponentText s) < 2 ^ 31
            then Some (mantissaText s, signedValue (exponentText s)) else None)
      else Some (mantissaText s, 0))"
  by (simp add: splitExponent_def IndexAny_exponent ParseInt_eq take_mantissa drop_mantissa
      mantissa_no_exponent)

lemma scanPoint_Some:
  "scanPoint s i (Some j) = (if CHR ''.'' \<in> set s then None else Some (Some j))"
  by (induction s arbitrary: i) auto

lemma scanPoint_None:
  "scanPoint s i None =
     (if CHR ''.'' \<notin> set s then Some None
      else if count_list s (CHR ''.'') = 1 then Some (Some (i + length (beforeFirst (CHR ''.'') s)))
      else None)"
  by (induction s arbitrary: i) (auto simp: scanPoint_Some beforeFirst_def count_list_0_iff)

lemma filter_no_point: "CHR ''.'' \<notin> set s \<Longrightarrow> filter (\<lambda>c. c \<noteq> CHR ''.'') s = s"
  by (induction s) auto

lemma one_point_parts:
  assumes "count_list m (CHR ''.'') = 1"
  shows "take (length (beforeFirst (CHR ''.'') m)) m @ drop (Suc (length (beforeFirst (CHR ''.'') m))) m
           = filter (\<lambda>c. c \<noteq> CHR ''.'') m"
    and "drop (Suc (length (beforeFirst (CHR ''.'') m))) m = afterFirst (CHR ''.'') m"
proof -
  let ?b = "beforeFirst (CHR ''.'') m" and ?a = "afterFirst (CHR ''.'') m"
  from assms have mem: "CHR ''.'' \<in> set m"
    using count_list_0_iff [of m "CHR ''.''"] by auto
  have m: "m = ?b @ CHR ''.'' # ?a" by (rule split_at_first [OF mem])
  have "count_list ?a (CHR ''.'') = 0"
    using count_afterFirst [OF mem] assms by simp
  then have a: "CHR ''.'' \<notin> set ?a" by (simp add: count_list_0_iff)
  have b: "CHR ''.'' \<notin> set ?b" by (rule sep_notin_beforeFirst)
  have tk: "take (length ?b) m = ?b" by (subst m) simp
  have dr: "drop (Suc (length ?b)) m = ?a" by (subst m) simp
  have "filter (\<lambda>c. c \<noteq> CHR ''.'') m = filter (\<lambda>c. c \<noteq> CHR ''.'') (?b @ CHR ''.'' # ?a)"
    using m by simp
  also have "\<dots> = ?b @ ?a" by (simp add: filter_no_point a b)
  finally show "take (length ?b) m @ drop (Suc (length ?b)) m = filter (\<lambda>c. c \<noteq> CHR ''.'') m"
    by (simp add: tk dr)
  show "drop (Suc (length ?b)) m = ?a" by (rule dr)
qed

lemma signedValue_bound:
  assumes "signedDigits t" "length t \<le> 18"
  shows "- (2 ^ 63) \<le> signedValue t \<and> signedValue t < 2 ^ 63"
proof -
  let ?u = "unsignedPart t"
  have "length ?u \<le> length t" by (cases t) (auto simp: unsignedPart_def)
  then have l: "length ?u \<le> 18" using assms(2) by simp
  have "digitsValue ?u < 10 ^ length ?u"
    using assms(1) by (simp add: signedDigits_def digitsValue_bound)
  also have "\<dots> \<le> 10 ^ 18" using l by (intro power_increasing) auto
  finally have "int (digitsValue ?u) < 10 ^ 18"
    by (metis of_nat_less_iff of_nat_numeral of_nat_power)
  then show ?thesis by (auto simp: signedValue_def)
qed

lemma intString_parse:
  "(if length t \<le> 18 then ParseInt t 64 else SetString t)
     = (if signedDigits t then Some (signedValue t) else None)"
  using signedValue_bound [of t] by (auto simp: ParseInt_eq SetString_eq)

lemma NewFromString_eq:
  "NewFromString s =
     (if acceptedLiteral s
      then Some \<lparr>value_d = signedValue (filter (\<lambda>c. c \<noteq> CHR ''.'') (mantissaText s)),
                 exp_d = word_of_int (literalExponent s)\<rparr>
      else None)"
proof -
  let ?m = "mantissaText s"
  let ?e = "if hasExponent s then signedValue (exponentText s) else 0"
  show ?thesis
  proof (cases "hasExponent s \<longrightarrow> signedDigits (exponentText s)
         \<and> - (2 ^ 31) \<le> signedValue (exponentText s) \<and> signedValue (exponentText s) < 2 ^ 31")
    case False
    then show ?thesis by (auto simp: NewFromString_def splitExponent_eq acceptedLiteral_def)
  next
    case ex: True
    then have se: "splitExponent s = Some (?m, ?e)" by (auto simp: splitExponent_eq)
    have eub: "?e < 2 ^ 31" using ex by auto
    consider (none) "CHR ''.'' \<notin> set ?m" | (one) "count_list ?m (CHR ''.'') = 1"
      | (many) "CHR ''.'' \<in> set ?m" "count_list ?m (CHR ''.'') \<noteq> 1" by blast
    then show ?thesis
    proof cases
      case none
      then have c0: "count_list ?m (CHR ''.'') = 0" by (simp add: count_list_0_iff)
      show ?thesis using ex none eub
        by (simp add: NewFromString_def se scanPoint_None intString_parse acceptedLiteral_def
            literalExponent_def afterFirst_no_sep filter_no_point c0 not_less)
    next
      case one
      then have mem: "CHR ''.'' \<in> set ?m" using count_list_0_iff [of ?m "CHR ''.''"] by auto
      have "?e - int (length (afterFirst (CHR ''.'') ?m)) \<le> ?e" by simp
      with eub have ub: "\<not> 2 ^ 31 - 1 < ?e - int (length (afterFirst (CHR ''.'') ?m))" by linarith
      have p1: "take (length (beforeFirst (CHR ''.'') ?m)) ?m @ afterFirst (CHR ''.'') ?m
                  = filter (\<lambda>c. c \<noteq> CHR ''.'') ?m"
        using one_point_parts [OF one] by simp
      show ?thesis using ex one mem ub
        by (simp add: NewFromString_def se scanPoint_None intString_parse acceptedLiteral_def
            literalExponent_def one_point_parts(2) [OF one] p1 not_less)
    next
      case many
      then have "\<not> count_list ?m (CHR ''.'') \<le> 1"
        using count_list_0_iff [of ?m "CHR ''.''"] by linarith
      then show ?thesis using many
        by (simp add: NewFromString_def se scanPoint_None acceptedLiteral_def)
    qed
  qed
qed

lemma isDigit_not_special: "isDigit c \<Longrightarrow> c \<notin> set ''+-.Ee''"
  by (auto simp: isDigit_def)

lemma digits_no_special:
  "list_all isDigit t \<Longrightarrow> c \<in> set ''+-.Ee'' \<Longrightarrow> c \<notin> set t"
  using isDigit_not_special by (auto simp: list_all_iff)

lemma specLiteral_build:
  assumes "specLiteral s"
  shows "s = buildLiteral (take 1 s = ''-'')
               (beforeFirst (CHR ''.'') (unsignedText s)) (afterFirst (CHR ''.'') (unsignedText s))"
proof -
  let ?u = "unsignedText s"
  have s: "s = (if take 1 s = ''-'' then ''-'' else []) @ ?u"
    by (cases s) (auto simp: unsignedText_def)
  have u: "?u = beforeFirst (CHR ''.'') ?u
              @ (if afterFirst (CHR ''.'') ?u = [] then [] else CHR ''.'' # afterFirst (CHR ''.'') ?u)"
  proof (cases "CHR ''.'' \<in> set ?u")
    case True
    then have "afterFirst (CHR ''.'') ?u \<noteq> []"
      using assms by (simp add: specLiteral_def Let_def)
    then show ?thesis using split_at_first [OF True] by simp
  next
    case False
    then have "beforeFirst (CHR ''.'') ?u = ?u"
      by (auto simp: beforeFirst_def)
    then show ?thesis using False by (simp add: afterFirst_no_sep)
  qed
  show ?thesis
    unfolding buildLiteral_def using s u by simp
qed

lemma build_facts:
  assumes ip: "ip \<noteq> []" "list_all isDigit ip" and fp: "list_all isDigit fp"
  shows "\<not> hasExponent (buildLiteral neg ip fp)"
    and "count_list (buildLiteral neg ip fp) (CHR ''.'') \<le> 1"
    and "filter (\<lambda>c. c \<noteq> CHR ''.'') (buildLiteral neg ip fp) = (if neg then ''-'' else []) @ ip @ fp"
    and "afterFirst (CHR ''.'') (buildLiteral neg ip fp) = fp"
    and "beforeFirst (CHR ''.'') (unsignedText (buildLiteral neg ip fp)) = ip"
    and "afterFirst (CHR ''.'') (unsignedText (buildLiteral neg ip fp)) = fp"
    and "take 1 (buildLiteral neg ip fp) = ''-'' \<longleftrightarrow> neg"
proof -
  have nip: "CHR ''.'' \<notin> set ip" "CHR ''-'' \<notin> set ip" "CHR ''E'' \<notin> set ip" "CHR ''e'' \<notin> set ip"
    using digits_no_special [OF ip(2)] by auto
  have nfp: "CHR ''.'' \<notin> set fp" "CHR ''E'' \<notin> set fp" "CHR ''e'' \<notin> set fp"
    using digits_no_special [OF fp] by auto
  obtain c r where c: "ip = c # r" using ip(1) by (cases ip) auto
  then have cd: "c \<noteq> CHR ''-''" "c \<noteq> CHR ''.''" using nip by auto
  show "\<not> hasExponent (buildLiteral neg ip fp)"
    using nip nfp by (auto simp: hasExponent_def buildLiteral_def list_ex_iff)
  have cip: "count_list ip (CHR ''.'') = 0" "count_list fp (CHR ''.'') = 0"
    using nip nfp by (simp_all add: count_list_0_iff)
  show "count_list (buildLiteral neg ip fp) (CHR ''.'') \<le> 1"
    using cip by (simp add: buildLiteral_def)
  show "filter (\<lambda>c. c \<noteq> CHR ''.'') (buildLiteral neg ip fp) = (if neg then ''-'' else []) @ ip @ fp"
    using nip nfp by (simp add: buildLiteral_def filter_no_point)
  have tw: "takeWhile (\<lambda>c. c \<noteq> CHR ''.'') (ip @ CHR ''.'' # fp) = ip"
       "dropWhile (\<lambda>c. c \<noteq> CHR ''.'') (ip @ CHR ''.'' # fp) = CHR ''.'' # fp"
       "takeWhile (\<lambda>c. c \<noteq> CHR ''.'') ip = ip" "dropWhile (\<lambda>c. c \<noteq> CHR ''.'') ip = []"
    using nip(1) by (induction ip) auto
  show "afterFirst (CHR ''.'') (buildLiteral neg ip fp) = fp"
    using tw by (simp add: buildLiteral_def afterFirst_def)
  have un: "unsignedText (buildLiteral neg ip fp) = ip @ (if fp = [] then [] else CHR ''.'' # fp)"
    using c cd by (simp add: buildLiteral_def unsignedText_def)
  show "beforeFirst (CHR ''.'') (unsignedText (buildLiteral neg ip fp)) = ip"
    using tw by (simp add: un beforeFirst_def)
  show "afterFirst (CHR ''.'') (unsignedText (buildLiteral neg ip fp)) = fp"
    using tw by (simp add: un afterFirst_def)
  show "take 1 (buildLiteral neg ip fp) = ''-'' \<longleftrightarrow> neg"
    using c cd by (simp add: buildLiteral_def)
qed

lemma build_signed:
  assumes ip: "ip \<noteq> []" "list_all isDigit ip" and fp: "list_all isDigit fp"
  shows "signedDigits ((if neg then ''-'' else []) @ ip @ fp)"
    and "signedValue ((if neg then ''-'' else []) @ ip @ fp)
           = (if neg then - int (digitsValue (ip @ fp)) else int (digitsValue (ip @ fp)))"
proof -
  obtain c r where c: "ip = c # r" using ip(1) by (cases ip) auto
  have "CHR ''+'' \<notin> set ip" "CHR ''-'' \<notin> set ip"
    using digits_no_special [OF ip(2)] by auto
  then have cd: "c \<noteq> CHR ''-''" "c \<noteq> CHR ''+''" using c by auto
  have un: "unsignedPart ((if neg then ''-'' else []) @ ip @ fp) = ip @ fp"
    using c cd by (simp add: unsignedPart_def)
  show "signedDigits ((if neg then ''-'' else []) @ ip @ fp)"
    using ip fp by (simp add: signedDigits_def un)
  have t1: "take 1 ((if neg then ''-'' else []) @ ip @ fp) = ''-'' \<longleftrightarrow> neg"
    using c cd by simp
  show "signedValue ((if neg then ''-'' else []) @ ip @ fp)
           = (if neg then - int (digitsValue (ip @ fp)) else int (digitsValue (ip @ fp)))"
    unfolding signedValue_def un t1 by (rule refl)
qed

lemma build_parse:
  assumes ip: "ip \<noteq> []" "list_all isDigit ip" and fp: "list_all isDigit fp"
    and len: "length fp \<le> 2 ^ 31"
  shows "NewFromString (buildLiteral neg ip fp) =
           Some \<lparr>value_d = (if neg then - int (digitsValue (ip @ fp)) else int (digitsValue (ip @ fp))),
                 exp_d = word_of_int (- int (length fp))\<rparr>"
proof -
  let ?s = "buildLiteral neg ip fp"
  note f = build_facts [OF ip fp, of neg]
  have m: "mantissaText ?s = ?s" using f(1) by (rule mantissa_no_exponent)
  have le: "literalExponent ?s = - int (length fp)"
    using f(1) by (simp add: literalExponent_def m f(4))
  have "acceptedLiteral ?s"
    using f(1,2) build_signed(1) [OF ip fp, of neg] len
    by (simp add: acceptedLiteral_def m f(3) le)
  then show ?thesis
    by (simp add: NewFromString_eq m f(3) le build_signed(2) [OF ip fp])
qed

lemma build_value:
  assumes ip: "ip \<noteq> []" "list_all isDigit ip" and fp: "list_all isDigit fp"
    and len: "length fp \<le> 2 ^ 31"
  shows "numval \<lparr>value_d = (if neg then - int (digitsValue (ip @ fp)) else int (digitsValue (ip @ fp))),
                 exp_d = word_of_int (- int (length fp))\<rparr>
         = literalValue (buildLiteral neg ip fp)"
proof -
  note f = build_facts [OF ip fp, of neg]
  define e where "e = (word_of_int (- int (length fp)) :: int32)"
  define m where "m = real (digitsValue ip) + real (digitsValue fp) / 10 ^ length fp"
  have sx: "sint e = - int (length fp)"
    unfolding e_def using len by (intro sint_word_of_int_32) auto
  have p: "(10::real) powi (- int (length fp)) = 1 / 10 ^ length fp"
    by (simp add: power_int_minus field_simps)
  have q: "real (digitsValue (ip @ fp)) / 10 ^ length fp = m"
    by (simp add: m_def digitsValue_append field_simps)
  have nv: "numval \<lparr>value_d = v, exp_d = e\<rparr> = real_of_int v / 10 ^ length fp" for v
    by (simp add: numval_def sx p)
  have lv: "literalValue (buildLiteral neg ip fp) = (if neg then - m else m)"
    unfolding literalValue_def Let_def f(5) f(6) f(7) m_def by (rule refl)
  show ?thesis
    unfolding e_def [symmetric] nv lv using q by (cases neg) simp_all
qed

lemma specLiteral_parse:
  assumes "specLiteral s" "length s \<le> 2 ^ 31"
  shows "\<exists>d. NewFromString s = Some d \<and> numval d = literalValue s"
proof -
  let ?u = "unsignedText s"
  let ?ip = "beforeFirst (CHR ''.'') ?u" and ?fp = "afterFirst (CHR ''.'') ?u"
  have ip: "?ip \<noteq> []" "list_all isDigit ?ip" and fp: "list_all isDigit ?fp"
    using assms(1) by (simp_all add: specLiteral_def Let_def)
  have "length ?fp \<le> length ?u" by (rule length_afterFirst)
  also have "\<dots> \<le> length s" by (rule length_unsignedText)
  finally have len: "length ?fp \<le> 2 ^ 31" using assms(2) by simp
  have s: "s = buildLiteral (take 1 s = ''-'') ?ip ?fp"
    by (rule specLiteral_build [OF assms(1)])
  show ?thesis
    using build_parse [OF ip fp len, of "take 1 s = ''-''"] build_value [OF ip fp len, of "take 1 s = ''-''"]
    unfolding s [symmetric] by simp
qed

lemma signedDigits_chars:
  assumes "signedDigits t" and x: "x \<in> set t"
  shows "isDigit x \<or> x = CHR ''+'' \<or> x = CHR ''-''"
proof -
  have u: "\<forall>c \<in> set (unsignedPart t). isDigit c"
    using assms(1) by (simp add: signedDigits_def list_all_iff)
  have "x \<in> set (unsignedPart t) \<or> x = CHR ''+'' \<or> x = CHR ''-''"
    using x by (cases t) (auto simp: unsignedPart_def split: if_splits)
  with u show ?thesis by blast
qed

lemma signedDigits_no_point:
  assumes "signedDigits t"
  shows "count_list t (CHR ''.'') = 0"
proof -
  have "CHR ''.'' \<notin> set t"
    using signedDigits_chars [OF assms, of "CHR ''.''"] isDigit_not_point by auto
  then show ?thesis by (simp add: count_list_0_iff)
qed

lemma exponent_split:
  assumes "hasExponent s"
  shows "\<exists>c. c \<in> set ''Ee'' \<and> s = mantissaText s @ c # exponentText s"
proof -
  let ?P = "\<lambda>c. c \<notin> set ''Ee''"
  from assms have "dropWhile ?P s \<noteq> []"
    by (auto simp: hasExponent_def list_ex_iff dropWhile_eq_Nil_conv)
  then obtain c r where d: "dropWhile ?P s = c # r"
    by (cases "dropWhile ?P s") auto
  then have "\<not> ?P c" using hd_dropWhile [of ?P s] by auto
  moreover have "s = takeWhile ?P s @ c # r"
    by (metis takeWhile_dropWhile_id d)
  ultimately show ?thesis
    unfolding mantissaText_def exponentText_def d by auto
qed

lemma acceptedLiteral_chars:
  assumes "acceptedLiteral s"
  shows "list_all literalChar s" and "count_list s (CHR ''.'') \<le> 1"
proof -
  let ?m = "mantissaText s"
  have sd: "signedDigits (filter (\<lambda>c. c \<noteq> CHR ''.'') ?m)"
    and cm: "count_list ?m (CHR ''.'') \<le> 1"
    using assms by (simp_all add: acceptedLiteral_def)
  have m: "literalChar x" if "x \<in> set ?m" for x
  proof (cases "x = CHR ''.''")
    case True
    then show ?thesis by (simp add: literalChar_def)
  next
    case False
    with that have "x \<in> set (filter (\<lambda>c. c \<noteq> CHR ''.'') ?m)" by simp
    then show ?thesis using signedDigits_chars [OF sd] by (auto simp: literalChar_def)
  qed
  show "list_all literalChar s"
  proof (cases "hasExponent s")
    case False
    then have "?m = s" by (rule mantissa_no_exponent)
    then show ?thesis using m by (auto simp: list_all_iff)
  next
    case True
    then have se: "signedDigits (exponentText s)"
      using assms by (simp add: acceptedLiteral_def)
    obtain c where c: "c \<in> set ''Ee''" "s = ?m @ c # exponentText s"
      using exponent_split [OF True] by blast
    have "literalChar x" if "x \<in> set s" for x
    proof -
      from that have "x \<in> set (?m @ c # exponentText s)" using c(2) by simp
      then consider "x \<in> set ?m" | "x = c" | "x \<in> set (exponentText s)" by auto
      then show ?thesis
      proof cases
        case 1
        then show ?thesis by (rule m)
      next
        case 2
        then show ?thesis using c(1) by (auto simp: literalChar_def)
      next
        case 3
        then show ?thesis using signedDigits_chars [OF se] by (auto simp: literalChar_def)
      qed
    qed
    then show ?thesis by (simp add: list_all_iff)
  qed
  show "count_list s (CHR ''.'') \<le> 1"
  proof (cases "hasExponent s")
    case False
    then show ?thesis using cm mantissa_no_exponent [of s] by simp
  next
    case True
    then have e: "count_list (exponentText s) (CHR ''.'') = 0"
      using assms signedDigits_no_point by (simp add: acceptedLiteral_def)
    obtain c where c: "c \<in> set ''Ee''" "s = ?m @ c # exponentText s"
      using exponent_split [OF True] by blast
    then have "c \<noteq> CHR ''.''" by auto
    then have "count_list (?m @ c # exponentText s) (CHR ''.'') = count_list ?m (CHR ''.'')"
      using e by simp
    then show ?thesis using cm c(2) by simp
  qed
qed

lemma validateDecimal_unparsed:
  "Field fl = StringValue s \<Longrightarrow> NewFromString s = None \<Longrightarrow> validateDecimal fl = False"
  by (simp add: validateDecimal_def)


section \<open>What the decimal parser accepts\<close>

lemmas literal_defs =
  specLiteral_def literalValue_def unsignedText_def beforeFirst_def afterFirst_def
  isDigit_def digitsValue_def digitVal_def

lemma beyond_parses:
  "NewFromString ''1e2'' = Some \<lparr>value_d = 1, exp_d = 2\<rparr>"
  "NewFromString ''+5'' = Some \<lparr>value_d = 5, exp_d = 0\<rparr>"
  "NewFromString ''.5'' = Some \<lparr>value_d = 5, exp_d = - 1\<rparr>"
  "NewFromString ''5.'' = Some \<lparr>value_d = 5, exp_d = 0\<rparr>"
  by (simp_all add: parse_defs)

lemma beyond_grammar:
  "\<not> specLiteral ''1e2''" "\<not> specLiteral ''+5''" "\<not> specLiteral ''.5''" "\<not> specLiteral ''5.''"
  by (simp_all add: literal_defs)

text \<open>
  C6 does not hold as stated: the parser accepts strings outside the stated form, such
  as a scientific exponent, a leading \<open>+\<close>, and a point with no digits before it or
  after it.
\<close>

theorem NewFromString_beyond_grammar:
  "NewFromString ''1e2'' = Some \<lparr>value_d = 1, exp_d = 2\<rparr> \<and> \<not> specLiteral ''1e2''
   \<and> NewFromString ''+5'' = Some \<lparr>value_d = 5, exp_d = 0\<rparr> \<and> \<not> specLiteral ''+5''
   \<and> NewFromString ''.5'' = Some \<lparr>value_d = 5, exp_d = - 1\<rparr> \<and> \<not> specLiteral ''.5''
   \<and> NewFromString ''5.'' = Some \<lparr>value_d = 5, exp_d = 0\<rparr> \<and> \<not> specLiteral ''5.''"
  by (simp only: beyond_parses beyond_grammar simp_thms)

lemma exp_text: "Decimal_String \<lparr>value_d = 1, exp_d = 2\<rparr> = ''100''"
  by (simp add: string_defs)

lemma exp_check: "validateDecimalPrecisionScale \<lparr>value_d = 1, exp_d = 2\<rparr> 38 18"
  by (simp add: validate_defs exp_text)

lemma validateDecimal_exponent:
  "validateDecimal \<lparr>Field = StringValue ''1e2'', Param = '''', Parent = parent\<rparr>"
  by (simp add: validateDecimal_def beyond_parses parseDecimalParams_examples exp_check)

text \<open>
  C6, as the code has it. The parser accepts every string of the stated form (an optional
  leading \<open>-\<close>, one or more integer digits, optionally a point followed by one or more
  fractional digits) of at most \<open>2^31\<close> bytes, but not only those: it accepts exactly the
  strings described by \<open>acceptedLiteral\<close>, among them a leading \<open>+\<close>, a missing integer
  or fractional part next to the point, and a scientific exponent. An accepted string
  consists of digits and the bytes \<open>+ - . e E\<close> only and has at most one point, so letters
  other than the exponent mark, white space and several points are parse failures; and
  a string that fails to parse is rejected by the \<open>decimal\<close> rule.
\<close>

theorem NewFromString_accepts:
  "(NewFromString s \<noteq> None \<longleftrightarrow> acceptedLiteral s)
   \<and> (specLiteral s \<and> length s \<le> 2 ^ 31 \<longrightarrow> NewFromString s \<noteq> None)
   \<and> (NewFromString s \<noteq> None \<longrightarrow> list_all literalChar s \<and> count_list s (CHR ''.'') \<le> 1)
   \<and> (Field fl = StringValue s \<and> NewFromString s = None \<longrightarrow> validateDecimal fl = False)"
proof (intro conjI impI)
  show a: "NewFromString s \<noteq> None \<longleftrightarrow> acceptedLiteral s"
    by (simp add: NewFromString_eq)
  show "NewFromString s \<noteq> None" if "specLiteral s \<and> length s \<le> 2 ^ 31"
    using specLiteral_parse [of s] that by auto
  show "list_all literalChar s" if "NewFromString s \<noteq> None"
    using that a acceptedLiteral_chars(1) by blast
  show "count_list s (CHR ''.'') \<le> 1" if "NewFromString s \<noteq> None"
    using that a acceptedLiteral_chars(2) by blast
  show "validateDecimal fl = False" if "Field fl = StringValue s \<and> NewFromString s = None"
    using that validateDecimal_unparsed by blast
qed

theorem NewFromString_accepts_witness:
  "specLiteral ''-12.5'' \<and> length ''-12.5'' \<le> 2 ^ 31 \<and> NewFromString ''-12.5'' \<noteq> None
   \<and> acceptedLiteral ''-12.5'' \<and> list_all literalChar ''-12.5''
   \<and> NewFromString ''12a'' = None
   \<and> validateDecimal \<lparr>Field = StringValue ''12a'', Param = ''2'', Parent = Map.empty\<rparr> = False"
proof -
  have s: "specLiteral ''-12.5''" by (simp add: literal_defs)
  have n: "NewFromString ''12a'' = None" by (simp add: parse_defs)
  show ?thesis
    using NewFromString_accepts [of "''-12.5''" "\<lparr>Field = StringValue ''0'', Param = ''2'', Parent = Map.empty\<rparr>"]
      NewFromString_accepts [of "''12a''" "\<lparr>Field = StringValue ''12a'', Param = ''2'', Parent = Map.empty\<rparr>"]
    by (auto simp: s n)
qed


section \<open>Comparison of decimals\<close>

lemma bigCmp_scaled:
  fixes c :: real
  assumes "0 < c"
  shows "bigCmp x y = sign3 (of_int x * c) (of_int y * c)"
  using assms by (simp add: bigCmp_def sign3_def)

lemma scale_numval:
  "(of_int (v * 10 ^ k) :: real) * 10 powi e = of_int v * 10 powi (e + int k)"
  by (simp add: power_int_add mult.commute mult.left_commute)

lemma rescale_down:
  assumes "sint e < sint (exp_d d)"
  shows "of_int (value_d (rescale d e)) * 10 powi (sint e) = numval d"
proof -
  define k where "k = nat (sint (exp_d d) - sint e)"
  have ne: "exp_d d \<noteq> e" using assms by auto
  have a: "\<bar>sint e - sint (exp_d d)\<bar> = sint (exp_d d) - sint e"
    using assms by simp
  have r: "value_d (rescale d e) = value_d d * 10 ^ k"
    using assms ne by (simp add: rescale_def Let_def k_def a)
  have s: "sint e + int k = sint (exp_d d)"
    using assms by (simp add: k_def)
  have "(of_int (value_d d * 10 ^ k) :: real) * 10 powi (sint e)
          = of_int (value_d d) * 10 powi (sint e + int k)"
    by (rule scale_numval)
  then show ?thesis
    by (simp only: r s numval_def)
qed

lemma Cmp_numval: "Cmp d d2 = sign3 (numval d) (numval d2)"
proof -
  have pos: "\<And>e. (0::real) < 10 powi e" by simp
  consider (eq) "exp_d d = exp_d d2" | (lt) "sint (exp_d d) < sint (exp_d d2)"
    | (gt) "sint (exp_d d2) < sint (exp_d d)"
    by (metis linorder_neqE_linordered_idom signed_word_eqI)
  then show ?thesis
  proof cases
    case eq
    then show ?thesis
      using bigCmp_scaled [OF pos, of "value_d d" "value_d d2" "sint (exp_d d)"]
      by (simp add: Cmp_def numval_def)
  next
    case lt
    then have ne: "exp_d d \<noteq> exp_d d2" by auto
    show ?thesis
      using lt ne rescale_down [OF lt]
        bigCmp_scaled [OF pos, of "value_d d" "value_d (rescale d2 (exp_d d))" "sint (exp_d d)"]
      by (simp add: Cmp_def RescalePair_def numval_def)
  next
    case gt
    then have ne: "exp_d d \<noteq> exp_d d2" by auto
    show ?thesis
      using gt ne rescale_down [OF gt]
        bigCmp_scaled [OF pos, of "value_d (rescale d (exp_d d2))" "value_d d2" "sint (exp_d d2)"]
      by (simp add: Cmp_def RescalePair_def numval_def)
  qed
qed

lemma decimalEqual_numval: "decimalEqual a b \<longleftrightarrow> numval a = numval b"
  by (simp add: decimalEqual_def Equal_def Cmp_numval sign3_def)

lemma decimalNotEqual_numval: "decimalNotEqual a b \<longleftrightarrow> numval a \<noteq> numval b"
  by (simp add: decimalNotEqual_def Equal_def Cmp_numval sign3_def)

lemma decimalGreaterThan_numval: "decimalGreaterThan a b \<longleftrightarrow> numval a > numval b"
  by (simp add: decimalGreaterThan_def GreaterThan_def Cmp_numval sign3_def)

lemma decimalLessThan_numval: "decimalLessThan a b \<longleftrightarrow> numval a < numval b"
  by (simp add: decimalLessThan_def LessThan_def Cmp_numval sign3_def)

lemma decimalGreaterThanOrEqual_numval: "decimalGreaterThanOrEqual a b \<longleftrightarrow> numval a \<ge> numval b"
  by (auto simp add: decimalGreaterThanOrEqual_def GreaterThanOrEqual_def Cmp_numval sign3_def Let_def)

lemma decimalLessThanOrEqual_numval: "decimalLessThanOrEqual a b \<longleftrightarrow> numval a \<le> numval b"
  by (auto simp add: decimalLessThanOrEqual_def LessThanOrEqual_def Cmp_numval sign3_def Let_def)


section \<open>The equality rules\<close>

lemma deq_parsed:
  "NewFromString x = Some a \<Longrightarrow> NewFromString y = Some b \<Longrightarrow>
   deq \<lparr>Field = StringValue x, Param = y, Parent = parent\<rparr> = (numval a = numval b)"
  by (simp add: deq_def validateDecimalOperation_def decimalEqual_numval)

lemma dneq_parsed:
  "NewFromString x = Some a \<Longrightarrow> NewFromString y = Some b \<Longrightarrow>
   dneq \<lparr>Field = StringValue x, Param = y, Parent = parent\<rparr> = (numval a \<noteq> numval b)"
  by (simp add: dneq_def validateDecimalOperation_def decimalNotEqual_numval)

lemma deq_literals:
  assumes "specLiteral x" "specLiteral y" "length x \<le> 2 ^ 31" "length y \<le> 2 ^ 31"
    and "literalValue x = literalValue y"
  shows "deq \<lparr>Field = StringValue x, Param = y, Parent = parent\<rparr>"
    and "\<not> dneq \<lparr>Field = StringValue x, Param = y, Parent = parent\<rparr>"
proof -
  obtain a where a: "NewFromString x = Some a" "numval a = literalValue x"
    using specLiteral_parse [OF assms(1,3)] by blast
  obtain b where b: "NewFromString y = Some b" "numval b = literalValue y"
    using specLiteral_parse [OF assms(2,4)] by blast
  show "deq \<lparr>Field = StringValue x, Param = y, Parent = parent\<rparr>"
    using deq_parsed [OF a(1) b(1)] a(2) b(2) assms(5) by simp
  show "\<not> dneq \<lparr>Field = StringValue x, Param = y, Parent = parent\<rparr>"
    using dneq_parsed [OF a(1) b(1)] a(2) b(2) assms(5) by simp
qed

lemma hundred_literals:
  "specLiteral ''100.50''" "specLiteral ''100.5''" "literalValue ''100.50'' = literalValue ''100.5''"
  by (simp_all add: literal_defs)

text \<open>
  C9: \<open>deq\<close> decides the numeric equality of the two parsed values, whatever their
  text: for two strings that parse, \<open>deq\<close> is true exactly when the two decimals are the
  same number, and \<open>dneq\<close> exactly when they are not; so two literals of the
  specification's grammar that denote the same number satisfy \<open>deq\<close> and not \<open>dneq\<close>,
  as \<open>"100.50"\<close> and \<open>"100.5"\<close> do.
\<close>

theorem deq_numeric_equality:
  "(NewFromString x = Some a \<and> NewFromString y = Some b \<longrightarrow>
      (deq \<lparr>Field = StringValue x, Param = y, Parent = parent\<rparr> \<longleftrightarrow> numval a = numval b)
      \<and> (dneq \<lparr>Field = StringValue x, Param = y, Parent = parent\<rparr> \<longleftrightarrow> numval a \<noteq> numval b))
   \<and> (specLiteral x \<and> specLiteral y \<and> length x \<le> 2 ^ 31 \<and> length y \<le> 2 ^ 31
        \<and> literalValue x = literalValue y \<longrightarrow>
        deq \<lparr>Field = StringValue x, Param = y, Parent = parent\<rparr>
        \<and> \<not> dneq \<lparr>Field = StringValue x, Param = y, Parent = parent\<rparr>)
   \<and> deq \<lparr>Field = StringValue ''100.50'', Param = ''100.5'', Parent = parent\<rparr>
   \<and> \<not> dneq \<lparr>Field = StringValue ''100.50'', Param = ''100.5'', Parent = parent\<rparr>"
proof (intro conjI impI)
  assume p: "NewFromString x = Some a \<and> NewFromString y = Some b"
  show "deq \<lparr>Field = StringValue x, Param = y, Parent = parent\<rparr> \<longleftrightarrow> numval a = numval b"
    using p deq_parsed by blast
  show "dneq \<lparr>Field = StringValue x, Param = y, Parent = parent\<rparr> \<longleftrightarrow> numval a \<noteq> numval b"
    using p dneq_parsed by blast
next
  assume l: "specLiteral x \<and> specLiteral y \<and> length x \<le> 2 ^ 31 \<and> length y \<le> 2 ^ 31
        \<and> literalValue x = literalValue y"
  show "deq \<lparr>Field = StringValue x, Param = y, Parent = parent\<rparr>"
    using l deq_literals(1) by blast
  show "\<not> dneq \<lparr>Field = StringValue x, Param = y, Parent = parent\<rparr>"
    using l deq_literals(2) by blast
next
  show "deq \<lparr>Field = StringValue ''100.50'', Param = ''100.5'', Parent = parent\<rparr>"
    by (rule deq_literals(1)) (simp_all add: hundred_literals)
  show "\<not> dneq \<lparr>Field = StringValue ''100.50'', Param = ''100.5'', Parent = parent\<rparr>"
    by (rule deq_literals(2)) (simp_all add: hundred_literals)
qed

lemma one_literals:
  "specLiteral ''1.0''" "specLiteral ''1''" "literalValue ''1.0'' = 1" "literalValue ''1'' = 1"
  by (simp_all add: literal_defs)

theorem deq_numeric_equality_witness:
  "specLiteral ''1.0'' \<and> specLiteral ''1'' \<and> length ''1.0'' \<le> 2 ^ 31 \<and> length ''1'' \<le> 2 ^ 31
   \<and> literalValue ''1.0'' = literalValue ''1''
   \<and> deq \<lparr>Field = StringValue ''1.0'', Param = ''1'', Parent = Map.empty\<rparr>
   \<and> \<not> dneq \<lparr>Field = StringValue ''1.0'', Param = ''1'', Parent = Map.empty\<rparr>"
  using deq_numeric_equality [of "''1.0''" "\<lparr>value_d = 10, exp_d = - 1\<rparr>" "''1''"
      "\<lparr>value_d = 1, exp_d = 0\<rparr>" Map.empty]
  by (simp add: one_literals)

end
